theory Spec2Isabelle
  imports Main "HOL-Library.Word"
begin

unbundle bit_operations_syntax

section \<open>Machine types (utils/types.h)\<close>

type_synonym u8 = "8 word"
type_synonym u16 = "16 word"
type_synonym u32 = "32 word"

text \<open>A C++ \<open>int\<close> that can overflow in the code below: 32 bits in two's complement, read as
  a signed number with \<open>sint\<close>. Addition and subtraction wrap around, which is what the
  compiled program does where C++ leaves signed overflow undefined.\<close>

type_synonym i32 = "32 word"

section \<open>Joypad (input/joypad.cpp)\<close>

record Joypad =
  buttons :: u8
  select_reg :: u8

definition Joypad_init :: Joypad where
  "Joypad_init = \<lparr> buttons = 0x00, select_reg = 0x00 \<rparr>"

definition Joypad_write :: "Joypad \<Rightarrow> u8 \<Rightarrow> Joypad" where
  "Joypad_write j v = j\<lparr> select_reg := v AND 0x30 \<rparr>"

text \<open>\<open>Joypad::read\<close>: the result starts as 0xCF and loses one bit per pressed button of a
  selected group.\<close>

definition Joypad_read :: "Joypad \<Rightarrow> u8 \<Rightarrow> u8" where
  "Joypad_read j select =
    (let result = 0xCF;
         select_action = (select AND 0x20 = 0);
         select_dpad = (select AND 0x10 = 0);
         result = (if select_action \<and> buttons j AND 0x01 \<noteq> 0 then result AND NOT 0x01 else result);
         result = (if select_action \<and> buttons j AND 0x02 \<noteq> 0 then result AND NOT 0x02 else result);
         result = (if select_action \<and> buttons j AND 0x04 \<noteq> 0 then result AND NOT 0x04 else result);
         result = (if select_action \<and> buttons j AND 0x08 \<noteq> 0 then result AND NOT 0x08 else result);
         result = (if select_dpad \<and> buttons j AND 0x10 \<noteq> 0 then result AND NOT 0x01 else result);
         result = (if select_dpad \<and> buttons j AND 0x20 \<noteq> 0 then result AND NOT 0x02 else result);
         result = (if select_dpad \<and> buttons j AND 0x40 \<noteq> 0 then result AND NOT 0x04 else result);
         result = (if select_dpad \<and> buttons j AND 0x80 \<noteq> 0 then result AND NOT 0x08 else result)
     in result)"

section \<open>Timer state (timer/timer.h)\<close>

text \<open>The two accumulators are C++ \<open>int\<close>s, as is the cycle count \<open>Timer::step\<close> receives.\<close>

record Timer =
  div_counter :: i32
  tima_counter :: i32

definition Timer_init :: Timer where
  "Timer_init = \<lparr> div_counter = 0, tima_counter = 0 \<rparr>"

definition resetDIV :: "Timer \<Rightarrow> Timer" where
  "resetDIV t = t\<lparr> div_counter := 0 \<rparr>"

section \<open>APU register file (audio/apu.h, apu.cpp)\<close>

text \<open>Only the part of the sound unit that a bus write reaches is modelled: the register
  array and the two square channels. The host audio device, the sample ring buffer and the
  floating-point sample accumulator are never touched by \<open>APU::write\<close>.\<close>

record SquareChannel =
  nr_0 :: u8
  nr_1 :: u8
  nr_2 :: u8
  nr_3 :: u8
  nr_4 :: u8
  enabled :: bool
  ch_timer :: int
  duty_pos :: int
  length_counter :: int
  volume :: int
  envelope_timer :: int
  ch_output :: u8

record APU =
  registers :: "nat \<Rightarrow> u8"
  ch1 :: SquareChannel
  ch2 :: SquareChannel

definition SquareChannel_zero :: SquareChannel where
  "SquareChannel_zero = \<lparr> nr_0 = 0, nr_1 = 0, nr_2 = 0, nr_3 = 0, nr_4 = 0, enabled = False,
     ch_timer = 0, duty_pos = 0, length_counter = 0, volume = 0, envelope_timer = 0,
     ch_output = 0 \<rparr>"

definition APU_init :: APU where
  "APU_init = \<lparr> registers = (\<lambda>_. 0)(0x16 := 0xF1), ch1 = SquareChannel_zero,
     ch2 = SquareChannel_zero \<rparr>"

definition triggerSquareChannel :: "SquareChannel \<Rightarrow> SquareChannel" where
  "triggerSquareChannel ch =
    (let ch = ch\<lparr> enabled := True,
                   volume := uint (drop_bit 4 (nr_2 ch)),
                   envelope_timer := uint (nr_2 ch AND 0x07) \<rparr>;
         freq = uint (nr_3 ch) OR push_bit 8 (uint (nr_4 ch AND 0x07));
         ch = ch\<lparr> ch_timer := (2048 - freq) * 4 \<rparr>
     in if length_counter ch = 0 then ch\<lparr> length_counter := 64 \<rparr> else ch)"

definition APU_write_ch1 :: "u16 \<Rightarrow> u8 \<Rightarrow> SquareChannel \<Rightarrow> SquareChannel" where
  "APU_write_ch1 addr v ch =
    (let ch = (if addr = 0xFF10 then ch\<lparr> nr_0 := v \<rparr> else ch);
         ch = (if addr = 0xFF11
               then ch\<lparr> nr_1 := v, length_counter := 64 - uint (v AND 0x3F) \<rparr> else ch);
         ch = (if addr = 0xFF12 then ch\<lparr> nr_2 := v \<rparr> else ch);
         ch = (if addr = 0xFF13 then ch\<lparr> nr_3 := v \<rparr> else ch)
     in if addr = 0xFF14
        then (let ch = ch\<lparr> nr_4 := v \<rparr>
              in if v AND 0x80 \<noteq> 0 then triggerSquareChannel ch else ch)
        else ch)"

definition APU_write_ch2 :: "u16 \<Rightarrow> u8 \<Rightarrow> SquareChannel \<Rightarrow> SquareChannel" where
  "APU_write_ch2 addr v ch =
    (let ch = (if addr = 0xFF16
               then ch\<lparr> nr_1 := v, length_counter := 64 - uint (v AND 0x3F) \<rparr> else ch);
         ch = (if addr = 0xFF17 then ch\<lparr> nr_2 := v \<rparr> else ch);
         ch = (if addr = 0xFF18 then ch\<lparr> nr_3 := v \<rparr> else ch)
     in if addr = 0xFF19
        then (let ch = ch\<lparr> nr_4 := v \<rparr>
              in if v AND 0x80 \<noteq> 0 then triggerSquareChannel ch else ch)
        else ch)"

definition APU_write :: "APU \<Rightarrow> u16 \<Rightarrow> u8 \<Rightarrow> APU" where
  "APU_write a addr v =
    (if 0xFF10 \<le> addr \<and> addr \<le> 0xFF3F then
       (let a = a\<lparr> registers := (registers a)(unat addr - 0xFF10 := v) \<rparr>
        in if addr = 0xFF26 then
             (if v AND 0x80 = 0
              then a\<lparr> registers := (\<lambda>i. if i < 0x20 then 0 else registers a i)
                                      (0x16 := v AND 0x80),
                      ch1 := (ch1 a)\<lparr> enabled := False \<rparr>,
                      ch2 := (ch2 a)\<lparr> enabled := False \<rparr> \<rparr>
              else a)
           else if registers a 0x16 AND 0x80 = 0 then a
           else a\<lparr> ch1 := APU_write_ch1 addr v (ch1 a),
                   ch2 := APU_write_ch2 addr v (ch2 a) \<rparr>)
     else a)"

section \<open>Cartridge and memory bank controllers (memory/cartridge.cpp)\<close>

text \<open>\<open>rom\<close> and \<open>ram\<close> are \<open>std::vector<u8>\<close>: lists, whose length is the vector's size.
  \<open>rom_bank\<close> and \<open>ram_bank\<close> are C++ \<open>int\<close>s.\<close>

record Cartridge =
  rom :: "u8 list"
  ram :: "u8 list"
  mbc_type :: u8
  rom_bank :: int
  ram_bank :: int
  ram_enabled :: bool
  rom_banking :: bool
  rtc_seconds :: u8
  rtc_minutes :: u8
  rtc_hours :: u8
  rtc_days_low :: u8
  rtc_days_high :: u8
  rtc_latched :: bool
  rtc_latch_state :: u8



definition readROM :: "Cartridge \<Rightarrow> u16 \<Rightarrow> u8" where
  "readROM c addr =
    (if addr < 0x4000 then
       (if unat addr < length (rom c) then rom c ! unat addr else 0xFF)
     else
       (let physical_addr = (word_of_int (rom_bank c * 0x4000 + (uint addr - 0x4000)) :: u32)
        in if unat physical_addr < length (rom c) then rom c ! unat physical_addr else 0xFF))"

definition is_MBC2 :: "Cartridge \<Rightarrow> bool" where
  "is_MBC2 c = (mbc_type c = 0x05 \<or> mbc_type c = 0x06)"

definition is_MBC3 :: "Cartridge \<Rightarrow> bool" where
  "is_MBC3 c = (0x0F \<le> mbc_type c \<and> mbc_type c \<le> 0x13)"

definition readRAM :: "Cartridge \<Rightarrow> u16 \<Rightarrow> u8" where
  "readRAM c addr =
    (if \<not> ram_enabled c \<or> ram c = [] then
       (if is_MBC2 c \<and> 512 \<le> length (ram c) then ram c ! unat (addr AND 0x01FF) AND 0x0F
        else 0xFF)
     else if is_MBC3 c \<and> 0x08 \<le> ram_bank c \<and> ram_bank c \<le> 0x0C then
       (if ram_bank c = 0x08 then rtc_seconds c
        else if ram_bank c = 0x09 then rtc_minutes c
        else if ram_bank c = 0x0A then rtc_hours c
        else if ram_bank c = 0x0B then rtc_days_low c
        else rtc_days_high c)
     else if is_MBC2 c then ram c ! unat (addr AND 0x01FF) AND 0x0F
     else
       (let physical_addr = (word_of_int (ram_bank c * 0x2000 + uint addr) :: u32)
        in if unat physical_addr < length (ram c) then ram c ! unat physical_addr else 0xFF))"

text \<open>\<open>Cartridge::writeROM\<close>, the MBC control channel: one branch per controller family, in
  the order of the \<open>switch\<close>.\<close>

definition writeROM_MBC1 :: "Cartridge \<Rightarrow> u16 \<Rightarrow> u8 \<Rightarrow> Cartridge" where
  "writeROM_MBC1 c addr v =
    (if addr < 0x2000 then c\<lparr> ram_enabled := (v AND 0x0F = 0x0A) \<rparr>
     else if addr < 0x4000 then
       (let bank = uint (v AND 0x1F);
            bank = (if bank = 0 then 1 else bank)
        in c\<lparr> rom_bank := (rom_bank c AND 0x60) OR bank \<rparr>)
     else if addr < 0x6000 then
       (if rom_banking c
        then c\<lparr> rom_bank := (rom_bank c AND 0x1F) OR push_bit 5 (uint (v AND 0x03)) \<rparr>
        else c\<lparr> ram_bank := uint (v AND 0x03) \<rparr>)
     else if addr < 0x8000 then
       (let c = c\<lparr> rom_banking := (v AND 0x01 = 0) \<rparr>
        in if rom_banking c then c\<lparr> ram_bank := 0 \<rparr> else c)
     else c)"

definition writeROM_MBC2 :: "Cartridge \<Rightarrow> u16 \<Rightarrow> u8 \<Rightarrow> Cartridge" where
  "writeROM_MBC2 c addr v =
    (if addr < 0x4000 then
       (if addr AND 0x0100 = 0 then c\<lparr> ram_enabled := (v AND 0x0F = 0x0A) \<rparr>
        else
          (let bank = uint (v AND 0x0F);
               bank = (if bank = 0 then 1 else bank)
           in c\<lparr> rom_bank := bank \<rparr>))
     else c)"

definition writeROM_MBC3 :: "Cartridge \<Rightarrow> u16 \<Rightarrow> u8 \<Rightarrow> Cartridge" where
  "writeROM_MBC3 c addr v =
    (if addr < 0x2000 then c\<lparr> ram_enabled := (v AND 0x0F = 0x0A) \<rparr>
     else if addr < 0x4000 then
       (let bank = uint (v AND 0x7F);
            bank = (if bank = 0 then 1 else bank)
        in c\<lparr> rom_bank := bank \<rparr>)
     else if addr < 0x6000 then c\<lparr> ram_bank := uint v \<rparr>
     else if addr < 0x8000 then
       (let c = (if rtc_latch_state c = 0x00 \<and> v = 0x01 then c\<lparr> rtc_latched := True \<rparr> else c)
        in c\<lparr> rtc_latch_state := v \<rparr>)
     else c)"

definition writeROM_MBC5 :: "Cartridge \<Rightarrow> u16 \<Rightarrow> u8 \<Rightarrow> Cartridge" where
  "writeROM_MBC5 c addr v =
    (if addr < 0x2000 then c\<lparr> ram_enabled := (v AND 0x0F = 0x0A) \<rparr>
     else if addr < 0x3000 then c\<lparr> rom_bank := (rom_bank c AND 0x100) OR uint v \<rparr>
     else if addr < 0x4000
       then c\<lparr> rom_bank := (rom_bank c AND 0xFF) OR push_bit 8 (uint (v AND 0x01)) \<rparr>
     else if addr < 0x6000 then c\<lparr> ram_bank := uint (v AND 0x0F) \<rparr>
     else c)"

definition writeROM :: "Cartridge \<Rightarrow> u16 \<Rightarrow> u8 \<Rightarrow> Cartridge" where
  "writeROM c addr v =
    (if mbc_type c = 0x00 then c
     else if mbc_type c = 0x01 \<or> mbc_type c = 0x02 \<or> mbc_type c = 0x03
       then writeROM_MBC1 c addr v
     else if mbc_type c = 0x05 \<or> mbc_type c = 0x06 then writeROM_MBC2 c addr v
     else if mbc_type c = 0x0F \<or> mbc_type c = 0x10 \<or> mbc_type c = 0x11 \<or> mbc_type c = 0x12
             \<or> mbc_type c = 0x13
       then writeROM_MBC3 c addr v
     else if mbc_type c = 0x19 \<or> mbc_type c = 0x1A \<or> mbc_type c = 0x1B \<or> mbc_type c = 0x1C
             \<or> mbc_type c = 0x1D \<or> mbc_type c = 0x1E
       then writeROM_MBC5 c addr v
     else c)"

text \<open>\<open>Cartridge::writeRAM\<close>. An index beyond the vector is not reached for the RAM sizes
  \<open>parseMBC\<close> allocates; the list update is then the identity.\<close>

definition writeRAM :: "Cartridge \<Rightarrow> u16 \<Rightarrow> u8 \<Rightarrow> Cartridge" where
  "writeRAM c addr v =
    (if \<not> ram_enabled c then c
     else if is_MBC3 c \<and> 0x08 \<le> ram_bank c \<and> ram_bank c \<le> 0x0C then
       (if ram_bank c = 0x08 then c\<lparr> rtc_seconds := v \<rparr>
        else if ram_bank c = 0x09 then c\<lparr> rtc_minutes := v \<rparr>
        else if ram_bank c = 0x0A then c\<lparr> rtc_hours := v \<rparr>
        else if ram_bank c = 0x0B then c\<lparr> rtc_days_low := v \<rparr>
        else c\<lparr> rtc_days_high := v \<rparr>)
     else if ram c = [] then c
     else if is_MBC2 c then c\<lparr> ram := (ram c)[unat (addr AND 0x01FF) := v AND 0x0F] \<rparr>
     else
       (let physical_addr = (word_of_int (ram_bank c * 0x2000 + uint addr) :: u32)
        in if unat physical_addr < length (ram c)
           then c\<lparr> ram := (ram c)[unat physical_addr := v] \<rparr> else c))"

section \<open>Memory bus (memory/mmu.h, mmu.cpp)\<close>

text \<open>The fixed-size arrays are functions from the index; every index the decoder produces lies
  inside its array. The cartridge pointer may be null (\<open>None\<close>). The bus owns the joypad, the
  timer and the sound unit.\<close>

record MMU =
  cartridge :: "Cartridge option"
  wram :: "nat \<Rightarrow> u8"
  vram :: "nat \<Rightarrow> u8"
  hram :: "nat \<Rightarrow> u8"
  oam :: "nat \<Rightarrow> u8"
  io :: "nat \<Rightarrow> u8"
  joypad :: Joypad
  timer :: Timer
  apu :: APU
  ie_register :: u8

definition io_init :: "nat \<Rightarrow> u8" where
  "io_init = (\<lambda>_. 0)
     (0x00 := 0xCF, 0x05 := 0x00, 0x06 := 0x00, 0x07 := 0x00, 0x0F := 0xE0,
      0x10 := 0x80, 0x11 := 0xBF, 0x12 := 0xF3, 0x14 := 0xBF, 0x16 := 0x3F, 0x17 := 0x00,
      0x19 := 0xBF, 0x1A := 0x7F, 0x1B := 0xFF, 0x1C := 0x9F, 0x1E := 0xBF, 0x20 := 0xFF,
      0x21 := 0x00, 0x22 := 0x00, 0x23 := 0xBF, 0x24 := 0x77, 0x25 := 0xF3, 0x26 := 0xF1,
      0x40 := 0x91, 0x41 := 0x00, 0x42 := 0x00, 0x43 := 0x00, 0x44 := 0x00, 0x45 := 0x00,
      0x47 := 0xFC, 0x48 := 0xFF, 0x49 := 0xFF, 0x4A := 0x00, 0x4B := 0x00)"

definition MMU_init :: MMU where
  "MMU_init = \<lparr> cartridge = None, wram = (\<lambda>_. 0), vram = (\<lambda>_. 0), hram = (\<lambda>_. 0),
     oam = (\<lambda>_. 0), io = io_init, joypad = Joypad_init, timer = Timer_init, apu = APU_init,
     ie_register = 0 \<rparr>"

definition MMU_read :: "MMU \<Rightarrow> u16 \<Rightarrow> u8" where
  "MMU_read m addr =
    (if addr < 0x4000 then (case cartridge m of Some c \<Rightarrow> readROM c addr | None \<Rightarrow> 0xFF)
     else if addr < 0x8000 then (case cartridge m of Some c \<Rightarrow> readROM c addr | None \<Rightarrow> 0xFF)
     else if addr < 0xA000 then vram m (unat addr - 0x8000)
     else if addr < 0xC000
       then (case cartridge m of Some c \<Rightarrow> readRAM c (addr - 0xA000) | None \<Rightarrow> 0xFF)
     else if addr < 0xE000 then wram m (unat addr - 0xC000)
     else if addr < 0xFE00 then wram m (unat addr - 0xE000)
     else if addr < 0xFEA0 then oam m (unat addr - 0xFE00)
     else if addr < 0xFF00 then 0xFF
     else if addr < 0xFF80 then
       (if addr = 0xFF00 then Joypad_read (joypad m) (io m 0x00)
        else io m (unat addr - 0xFF00))
     else if addr < 0xFFFF then hram m (unat addr - 0xFF80)
     else ie_register m)"

definition setLY :: "MMU \<Rightarrow> u8 \<Rightarrow> MMU" where
  "setLY m v = m\<lparr> io := (io m)(0x44 := v) \<rparr>"

text \<open>\<open>MMU::doDMATransfer\<close>: the loop copies byte by byte, each read seeing the bytes already
  copied.\<close>

definition doDMATransfer :: "MMU \<Rightarrow> u8 \<Rightarrow> MMU" where
  "doDMATransfer m v =
    (let source = push_bit 8 (ucast v :: u16)
     in fold (\<lambda>i m. m\<lparr> oam := (oam m)(i := MMU_read m (source + of_nat i)) \<rparr>) [0..<0xA0] m)"

definition MMU_write :: "MMU \<Rightarrow> u16 \<Rightarrow> u8 \<Rightarrow> MMU" where
  "MMU_write m addr v =
    (if addr < 0x8000 then
       (case cartridge m of Some c \<Rightarrow> m\<lparr> cartridge := Some (writeROM c addr v) \<rparr> | None \<Rightarrow> m)
     else if addr < 0xA000 then m\<lparr> vram := (vram m)(unat addr - 0x8000 := v) \<rparr>
     else if addr < 0xC000 then
       (case cartridge m of Some c \<Rightarrow> m\<lparr> cartridge := Some (writeRAM c (addr - 0xA000) v) \<rparr>
        | None \<Rightarrow> m)
     else if addr < 0xE000 then m\<lparr> wram := (wram m)(unat addr - 0xC000 := v) \<rparr>
     else if addr < 0xFE00 then m\<lparr> wram := (wram m)(unat addr - 0xE000 := v) \<rparr>
     else if addr < 0xFEA0 then m\<lparr> oam := (oam m)(unat addr - 0xFE00 := v) \<rparr>
     else if addr < 0xFF00 then m
     else if addr < 0xFF80 then
       (if addr = 0xFF00
          then m\<lparr> joypad := Joypad_write (joypad m) v, io := (io m)(0x00 := v) \<rparr>
        else if addr = 0xFF04
          then m\<lparr> timer := resetDIV (timer m), io := (io m)(0x04 := 0) \<rparr>
        else if 0xFF10 \<le> addr \<and> addr \<le> 0xFF3F then m\<lparr> apu := APU_write (apu m) addr v \<rparr>
        else if addr = 0xFF44 then m\<lparr> io := (io m)(0x44 := 0) \<rparr>
        else if addr = 0xFF46 then (let m = doDMATransfer m v in m\<lparr> io := (io m)(0x46 := v) \<rparr>)
        else m\<lparr> io := (io m)(unat addr - 0xFF00 := v) \<rparr>)
     else if addr < 0xFFFF then m\<lparr> hram := (hram m)(unat addr - 0xFF80 := v) \<rparr>
     else m\<lparr> ie_register := v \<rparr>)"

section \<open>Timer (timer/timer.cpp)\<close>

text \<open>The timer stepped by the frame loop is the one the bus owns (\<open>mmu.getTimer()\<close>), so
  \<open>Timer::step\<close> runs on the \<open>timer\<close> field of the bus it is given: a bus write that reaches
  \<open>resetDIV\<close> changes the very accumulator the loop is counting with.\<close>

function div_loop :: "MMU \<Rightarrow> MMU" where
  "div_loop m =
    (if 64 \<le> sint (div_counter (timer m)) then
       (let m = m\<lparr> timer := (timer m)\<lparr> div_counter := div_counter (timer m) - 64 \<rparr> \<rparr>;
            div_reg = MMU_read m 0xFF04
        in div_loop (MMU_write m 0xFF04 (div_reg + 1)))
     else m)"
  by pat_completeness auto
termination
  by (relation "measure (\<lambda>m. if 64 \<le> sint (div_counter (timer m)) then 1 else 0)")
     (simp_all add: MMU_write_def resetDIV_def)

text \<open>The period selected by TAC bits 1-0 (the \<open>switch\<close> of \<open>Timer::checkTIMA\<close>).\<close>

definition threshold_of :: "u8 \<Rightarrow> i32" where
  "threshold_of tac =
    (let sel = tac AND 0x03
     in if sel = 0 then 256 else if sel = 1 then 4 else if sel = 2 then 16
        else if sel = 3 then 64 else 256)"

text \<open>The \<open>while\<close> loop of \<open>checkTIMA\<close>. The source computes \<open>threshold\<close> once from \<open>tac\<close> before
  the loop; here the loop carries \<open>tac\<close> and recomputes the same value, which keeps the fact
  that the threshold is positive in reach of the termination proof.\<close>

function tima_loop :: "u8 \<Rightarrow> MMU \<Rightarrow> MMU" where
  "tima_loop tac m =
    (if sint (threshold_of tac) \<le> sint (tima_counter (timer m)) then
       (let m = m\<lparr> timer := (timer m)\<lparr> tima_counter := tima_counter (timer m) - threshold_of tac \<rparr> \<rparr>;
            tima = MMU_read m 0xFF05
        in tima_loop tac
             (if tima = 0xFF then
                (let tma = MMU_read m 0xFF06;
                     m = MMU_write m 0xFF05 tma;
                     if_reg = MMU_read m 0xFF0F
                 in MMU_write m 0xFF0F (if_reg OR 0x04))
              else MMU_write m 0xFF05 (tima + 1)))
     else m)"
  by pat_completeness auto
termination
proof -
  have pos: "0 < sint (threshold_of tac)" for tac
    by (simp add: threshold_of_def Let_def)
  have g1: "0 < sint t" if "sint (threshold_of tac) \<le> sint t" for tac and t :: i32
    using that pos [of tac] by linarith
  have g2: "sint (t - threshold_of tac) < sint t"
    if "sint (threshold_of tac) \<le> sint t" for tac and t :: i32
  proof -
    have "sint t < 2 ^ 31" using sint_lt [of t] by simp
    with that pos [of tac] have "sint (t - threshold_of tac) = sint t - sint (threshold_of tac)"
      by (simp add: sint_word_ariths signed_take_bit_int_eq_self)
    with pos [of tac] show ?thesis by simp
  qed
  show ?thesis
    by (relation "measure (\<lambda>(tac, m). nat (sint (tima_counter (timer m))))")
       (auto simp add: MMU_write_def MMU_read_def Let_def g1 g2)
qed

definition checkTIMA :: "i32 \<Rightarrow> MMU \<Rightarrow> MMU" where
  "checkTIMA cyc m =
    (let tac = MMU_read m 0xFF07
     in if tac AND 0x04 = 0 then m
        else tima_loop tac (m\<lparr> timer := (timer m)\<lparr> tima_counter := tima_counter (timer m) + cyc \<rparr> \<rparr>))"

definition Timer_step :: "i32 \<Rightarrow> MMU \<Rightarrow> MMU" where
  "Timer_step cyc m =
    (let m = m\<lparr> timer := (timer m)\<lparr> div_counter := div_counter (timer m) + cyc \<rparr> \<rparr>;
         m = div_loop m
     in checkTIMA cyc m)"

section \<open>CPU (cpu/cpu.h, cpu.cpp, instructions.cpp)\<close>

record CPU =
  A :: u8
  B :: u8
  C :: u8
  D :: u8
  E :: u8
  F :: u8
  H :: u8
  L :: u8
  SP :: u16
  PC :: u16
  halted :: bool
  stopped :: bool
  ime :: bool
  ime_scheduled :: bool
  cycles :: u32

datatype Flags = FLAG_Z | FLAG_N | FLAG_H | FLAG_C

fun flag_mask :: "Flags \<Rightarrow> u8" where
  "flag_mask FLAG_Z = 0x80"
| "flag_mask FLAG_N = 0x40"
| "flag_mask FLAG_H = 0x20"
| "flag_mask FLAG_C = 0x10"

definition getFlag :: "CPU \<Rightarrow> Flags \<Rightarrow> bool" where
  "getFlag c flag = (F c AND flag_mask flag \<noteq> 0)"

definition setFlag :: "CPU \<Rightarrow> Flags \<Rightarrow> bool \<Rightarrow> CPU" where
  "setFlag c flag v =
    (if v then c\<lparr> F := F c OR flag_mask flag \<rparr> else c\<lparr> F := F c AND NOT (flag_mask flag) \<rparr>)"

definition CPU_reset :: CPU where
  "CPU_reset = \<lparr> A = 0x01, B = 0x00, C = 0x13, D = 0x00, E = 0xD8, F = 0xB0, H = 0x01, L = 0x4D,
     SP = 0xFFFE, PC = 0x0100, halted = False, stopped = False, ime = False,
     ime_scheduled = False, cycles = 0 \<rparr>"

subsection \<open>Memory access with cycle counting, stack\<close>

definition read8 :: "CPU \<Rightarrow> MMU \<Rightarrow> u16 \<Rightarrow> CPU \<times> u8" where
  "read8 c m addr = (c\<lparr> cycles := cycles c + 4 \<rparr>, MMU_read m addr)"

definition write8 :: "CPU \<Rightarrow> MMU \<Rightarrow> u16 \<Rightarrow> u8 \<Rightarrow> CPU \<times> MMU" where
  "write8 c m addr v = (c\<lparr> cycles := cycles c + 4 \<rparr>, MMU_write m addr v)"

definition write16 :: "CPU \<Rightarrow> MMU \<Rightarrow> u16 \<Rightarrow> u16 \<Rightarrow> CPU \<times> MMU" where
  "write16 c m addr v =
    (let (c, m) = write8 c m addr (ucast (v AND 0xFF))
     in write8 c m (addr + 1) (ucast (drop_bit 8 v)))"

definition push16 :: "CPU \<Rightarrow> MMU \<Rightarrow> u16 \<Rightarrow> CPU \<times> MMU" where
  "push16 c m v = (let c = c\<lparr> SP := SP c - 2 \<rparr> in write16 c m (SP c) v)"

subsection \<open>Interrupt dispatch\<close>

text \<open>\<open>CPU::handleInterrupts\<close>. The \<open>for\<close> loop over i = 0..4 services the first set bit and
  breaks: the lowest i whose bit is set in \<open>triggered\<close>.\<close>

definition service_interrupt :: "nat \<Rightarrow> u8 \<Rightarrow> CPU \<Rightarrow> MMU \<Rightarrow> CPU \<times> MMU" where
  "service_interrupt i IF c m =
    (let c = c\<lparr> halted := False, ime := False \<rparr>;
         m = MMU_write m 0xFF0F (IF AND NOT (push_bit i 1));
         (c, m) = push16 c m (PC c);
         c = c\<lparr> PC := 0x0040 + of_nat i * 0x08 \<rparr>;
         c = c\<lparr> cycles := cycles c + 20 \<rparr>
     in (c, m))"

definition handleInterrupts :: "CPU \<Rightarrow> MMU \<Rightarrow> CPU \<times> MMU" where
  "handleInterrupts c m =
    (if \<not> ime c then (c, m)
     else
       (let IF = MMU_read m 0xFF0F;
            IE = MMU_read m 0xFFFF;
            triggered = IF AND IE AND 0x1F
        in if triggered = 0 then (c, m)
           else (case find (\<lambda>i. triggered AND push_bit i 1 \<noteq> 0) [0, 1, 2, 3, 4] of
                   None \<Rightarrow> (c, m)
                 | Some i \<Rightarrow> service_interrupt i IF c m)))"

subsection \<open>Instructions\<close>

definition NOP :: "CPU \<Rightarrow> CPU" where
  "NOP c = c"

definition HALT :: "CPU \<Rightarrow> CPU" where
  "HALT c = c\<lparr> halted := True \<rparr>"

definition STOP :: "CPU \<Rightarrow> CPU" where
  "STOP c = c\<lparr> stopped := True \<rparr>"

definition DI :: "CPU \<Rightarrow> CPU" where
  "DI c = c\<lparr> ime := False \<rparr>"

definition EI :: "CPU \<Rightarrow> CPU" where
  "EI c = c\<lparr> ime_scheduled := True \<rparr>"

text \<open>\<open>CPU::DAA\<close>. The correction byte is assembled with bitwise or and then added to, or
  subtracted from, the accumulator; both tests of the addition branch look at the accumulator
  as it was on entry.\<close>

definition DAA :: "CPU \<Rightarrow> CPU" where
  "DAA c =
    (let correction = (0 :: u8);
         carry = getFlag c FLAG_C;
         (a, carry) =
           (if \<not> getFlag c FLAG_N then
              (let correction =
                     (if getFlag c FLAG_H \<or> A c AND 0x0F > 9 then correction OR 0x06
                      else correction);
                   (correction, carry) =
                     (if carry \<or> A c > 0x99 then (correction OR 0x60, True)
                      else (correction, carry))
               in (A c + correction, carry))
            else
              (let correction = (if getFlag c FLAG_H then correction OR 0x06 else correction);
                   correction = (if carry then correction OR 0x60 else correction)
               in (A c - correction, carry)));
         c = c\<lparr> A := a \<rparr>;
         c = setFlag c FLAG_Z (A c = 0);
         c = setFlag c FLAG_H False
     in setFlag c FLAG_C carry)"

text \<open>\<open>CPU::executeOpcode\<close>, restricted to the control instructions and DAA. \<open>None\<close> marks an
  opcode outside this fragment; it is not a failure of the program.\<close>

definition executeOpcode :: "u8 \<Rightarrow> CPU \<Rightarrow> MMU \<Rightarrow> (CPU \<times> MMU) option" where
  "executeOpcode opcode c m =
    (if opcode = 0x00 then Some (NOP c, m)
     else if opcode = 0x10 then (let c = STOP c in Some (c\<lparr> PC := PC c + 1 \<rparr>, m))
     else if opcode = 0x27 then Some (DAA c, m)
     else if opcode = 0x76 then Some (HALT c, m)
     else if opcode = 0xF3 then Some (DI c, m)
     else if opcode = 0xFB then Some (EI c, m)
     else None)"

text \<open>\<open>CPU::step\<close>.\<close>

definition CPU_step :: "CPU \<times> MMU \<Rightarrow> (CPU \<times> MMU) option" where
  "CPU_step cm =
    (case cm of (c, m) \<Rightarrow>
      (let c = (if ime_scheduled c then c\<lparr> ime := True, ime_scheduled := False \<rparr> else c)
       in if halted c then
            (let c = c\<lparr> cycles := cycles c + 4 \<rparr>;
                 IF = MMU_read m 0xFF0F;
                 IE = MMU_read m 0xFFFF
             in Some (if IF AND IE AND 0x1F \<noteq> 0 then c\<lparr> halted := False \<rparr> else c, m))
          else
            (let (c, opcode) = read8 (c\<lparr> PC := PC c + 1 \<rparr>) m (PC c)
             in case executeOpcode opcode c m of
                  None \<Rightarrow> None
                | Some (c, m) \<Rightarrow> Some (handleInterrupts c m))))"

text \<open>Running n steps; \<open>None\<close> as soon as a step leaves the modelled fragment.\<close>

fun CPU_steps :: "nat \<Rightarrow> CPU \<times> MMU \<Rightarrow> (CPU \<times> MMU) option" where
  "CPU_steps 0 cm = Some cm"
| "CPU_steps (Suc n) cm = (case CPU_step cm of None \<Rightarrow> None | Some cm' \<Rightarrow> CPU_steps n cm')"

section \<open>PPU timing (graphics/ppu.h, ppu.cpp)\<close>

text \<open>The mode state machine of \<open>PPU::step\<close>. The framebuffer is left out: \<open>renderScanline\<close>
  writes nothing else, and it reads the bus without changing it.\<close>

datatype Mode = HBLANK | VBLANK | OAM | VRAM

fun mode_num :: "Mode \<Rightarrow> u8" where
  "mode_num HBLANK = 0"
| "mode_num VBLANK = 1"
| "mode_num OAM = 2"
| "mode_num VRAM = 3"

record PPU =
  mode :: Mode
  mode_cycles :: int
  scanline :: int
  frame_ready :: bool

definition PPU_init :: PPU where
  "PPU_init = \<lparr> mode = OAM, mode_cycles = 0, scanline = 0, frame_ready = False \<rparr>"

definition setMode :: "Mode \<Rightarrow> PPU \<Rightarrow> MMU \<Rightarrow> PPU \<times> MMU" where
  "setMode new_mode p m =
    (let p = p\<lparr> mode := new_mode \<rparr>;
         stat = MMU_read m 0xFF41;
         stat = (stat AND 0xFC) OR mode_num new_mode
     in (p, MMU_write m 0xFF41 stat))"

definition PPU_step_HBLANK :: "PPU \<Rightarrow> MMU \<Rightarrow> PPU \<times> MMU" where
  "PPU_step_HBLANK p m =
    (if 204 \<le> mode_cycles p then
       (let p = p\<lparr> mode_cycles := mode_cycles p - 204 \<rparr>;
            p = p\<lparr> scanline := scanline p + 1 \<rparr>;
            m = setLY m (word_of_int (scanline p));
            lyc = MMU_read m 0xFF45;
            stat = MMU_read m 0xFF41;
            (stat, m) =
              (if scanline p = uint lyc then
                 (let stat = stat OR 0x04
                  in (stat, if stat AND 0x40 \<noteq> 0
                            then MMU_write m 0xFF0F (MMU_read m 0xFF0F OR 0x02) else m))
               else (stat AND NOT 0x04, m));
            m = MMU_write m 0xFF41 stat
        in if scanline p = 144 then
             (let (p, m) = setMode VBLANK p m;
                  p = p\<lparr> frame_ready := True \<rparr>
              in (p, MMU_write m 0xFF0F (MMU_read m 0xFF0F OR 0x01)))
           else setMode OAM p m)
     else (p, m))"

definition PPU_step_VBLANK :: "PPU \<Rightarrow> MMU \<Rightarrow> PPU \<times> MMU" where
  "PPU_step_VBLANK p m =
    (if 456 \<le> mode_cycles p then
       (let p = p\<lparr> mode_cycles := mode_cycles p - 456 \<rparr>;
            p = p\<lparr> scanline := scanline p + 1 \<rparr>;
            m = setLY m (word_of_int (scanline p))
        in if scanline p = 154 then
             (let p = p\<lparr> scanline := 0 \<rparr>;
                  m = setLY m 0
              in setMode OAM p m)
           else (p, m))
     else (p, m))"

definition PPU_step :: "int \<Rightarrow> PPU \<Rightarrow> MMU \<Rightarrow> PPU \<times> MMU" where
  "PPU_step cyc p m =
    (let p = p\<lparr> mode_cycles := mode_cycles p + cyc \<rparr>;
         lcdc = MMU_read m 0xFF40
     in if lcdc AND 0x80 = 0 then (p\<lparr> scanline := 0, mode_cycles := 0, mode := OAM \<rparr>, m)
        else (case mode p of
                OAM \<Rightarrow>
                  (if 80 \<le> mode_cycles p
                   then setMode VRAM (p\<lparr> mode_cycles := mode_cycles p - 80 \<rparr>) m else (p, m))
              | VRAM \<Rightarrow>
                  (if 172 \<le> mode_cycles p
                   then setMode HBLANK (p\<lparr> mode_cycles := mode_cycles p - 172 \<rparr>) m else (p, m))
              | HBLANK \<Rightarrow> PPU_step_HBLANK p m
              | VBLANK \<Rightarrow> PPU_step_VBLANK p m))"

section \<open>Save states (savestate.h, savestate.cpp and the components' loadState)\<close>

subsection \<open>Binary input stream\<close>

text \<open>An opened \<open>std::ifstream\<close>: the bytes not yet consumed and the fail bit.
  \<open>stream_read n buf f\<close> is \<open>f.read(buf, n)\<close>, returning the new content of the first n bytes
  of the destination: nothing is stored once the stream has failed; a short file stores
  the bytes that are left and sets the fail bit.\<close>

record ifstream =
  remaining :: "u8 list"
  fail :: bool

definition stream_read :: "nat \<Rightarrow> u8 list \<Rightarrow> ifstream \<Rightarrow> u8 list \<times> ifstream" where
  "stream_read n buf f =
    (if fail f then (buf, f)
     else if n \<le> length (remaining f)
       then (take n (remaining f), f\<lparr> remaining := drop n (remaining f) \<rparr>)
     else (remaining f @ drop (length (remaining f)) buf, f\<lparr> remaining := [], fail := True \<rparr>))"

text \<open>Object representations, as on the little-endian hosts the emulator is built for: an
  integer is its bytes from the least significant one, a \<open>bool\<close> is one byte.\<close>

definition le_bytes :: "nat \<Rightarrow> 'a::len word \<Rightarrow> u8 list" where
  "le_bytes n w = map (\<lambda>k. ucast (drop_bit (8 * k) w)) [0..<n]"

definition of_le_bytes :: "u8 list \<Rightarrow> 'a::len word" where
  "of_le_bytes bs = foldr (\<lambda>b acc. ucast b OR push_bit 8 acc) bs 0"

definition read_u8 :: "u8 \<Rightarrow> ifstream \<Rightarrow> u8 \<times> ifstream" where
  "read_u8 old f = (let (bs, f) = stream_read 1 [old] f in (hd bs, f))"

definition read_bool :: "bool \<Rightarrow> ifstream \<Rightarrow> bool \<times> ifstream" where
  "read_bool old f = (let (bs, f) = stream_read 1 [if old then 1 else 0] f in (hd bs \<noteq> 0, f))"

definition read_u16 :: "u16 \<Rightarrow> ifstream \<Rightarrow> u16 \<times> ifstream" where
  "read_u16 old f = (let (bs, f) = stream_read 2 (le_bytes 2 old) f in (of_le_bytes bs, f))"

definition read_u32 :: "u32 \<Rightarrow> ifstream \<Rightarrow> u32 \<times> ifstream" where
  "read_u32 old f = (let (bs, f) = stream_read 4 (le_bytes 4 old) f in (of_le_bytes bs, f))"

definition read_int :: "int \<Rightarrow> ifstream \<Rightarrow> int \<times> ifstream" where
  "read_int old f =
    (let (w, f) = read_u32 (word_of_int old) f in (sint w, f))"

definition read_array :: "nat \<Rightarrow> (nat \<Rightarrow> u8) \<Rightarrow> ifstream \<Rightarrow> (nat \<Rightarrow> u8) \<times> ifstream" where
  "read_array n arr f =
    (let (bs, f) = stream_read n (map arr [0..<n]) f
     in (\<lambda>i. if i < n then bs ! i else arr i, f))"

subsection \<open>Component loaders\<close>

definition CPU_loadState :: "CPU \<Rightarrow> ifstream \<Rightarrow> CPU \<times> ifstream" where
  "CPU_loadState c f =
    (let (x, f) = read_u8 (A c) f; c = c\<lparr> A := x \<rparr>;
         (x, f) = read_u8 (F c) f; c = c\<lparr> F := x \<rparr>;
         (x, f) = read_u8 (B c) f; c = c\<lparr> B := x \<rparr>;
         (x, f) = read_u8 (C c) f; c = c\<lparr> C := x \<rparr>;
         (x, f) = read_u8 (D c) f; c = c\<lparr> D := x \<rparr>;
         (x, f) = read_u8 (E c) f; c = c\<lparr> E := x \<rparr>;
         (x, f) = read_u8 (H c) f; c = c\<lparr> H := x \<rparr>;
         (x, f) = read_u8 (L c) f; c = c\<lparr> L := x \<rparr>;
         (x, f) = read_u16 (SP c) f; c = c\<lparr> SP := x \<rparr>;
         (x, f) = read_u16 (PC c) f; c = c\<lparr> PC := x \<rparr>;
         (x, f) = read_bool (halted c) f; c = c\<lparr> halted := x \<rparr>;
         (x, f) = read_bool (stopped c) f; c = c\<lparr> stopped := x \<rparr>;
         (x, f) = read_bool (ime c) f; c = c\<lparr> ime := x \<rparr>;
         (x, f) = read_bool (ime_scheduled c) f; c = c\<lparr> ime_scheduled := x \<rparr>;
         (x, f) = read_u32 (cycles c) f; c = c\<lparr> cycles := x \<rparr>
     in (c, f))"

definition Cartridge_loadState :: "Cartridge \<Rightarrow> ifstream \<Rightarrow> Cartridge \<times> ifstream" where
  "Cartridge_loadState c f =
    (let (ram_size, f) = read_u32 0 f;
         (c, f) =
           (if 0 < ram_size \<and> unat ram_size \<le> length (ram c) then
              (let (bs, f) = stream_read (unat ram_size) (take (unat ram_size) (ram c)) f
               in (c\<lparr> ram := bs @ drop (unat ram_size) (ram c) \<rparr>, f))
            else (c, f));
         (x, f) = read_int (rom_bank c) f; c = c\<lparr> rom_bank := x \<rparr>;
         (x, f) = read_int (ram_bank c) f; c = c\<lparr> ram_bank := x \<rparr>;
         (x, f) = read_bool (ram_enabled c) f; c = c\<lparr> ram_enabled := x \<rparr>;
         (x, f) = read_bool (rom_banking c) f; c = c\<lparr> rom_banking := x \<rparr>;
         (x, f) = read_u8 (rtc_seconds c) f; c = c\<lparr> rtc_seconds := x \<rparr>;
         (x, f) = read_u8 (rtc_minutes c) f; c = c\<lparr> rtc_minutes := x \<rparr>;
         (x, f) = read_u8 (rtc_hours c) f; c = c\<lparr> rtc_hours := x \<rparr>;
         (x, f) = read_u8 (rtc_days_low c) f; c = c\<lparr> rtc_days_low := x \<rparr>;
         (x, f) = read_u8 (rtc_days_high c) f; c = c\<lparr> rtc_days_high := x \<rparr>;
         (x, f) = read_bool (rtc_latched c) f; c = c\<lparr> rtc_latched := x \<rparr>;
         (x, f) = read_u8 (rtc_latch_state c) f; c = c\<lparr> rtc_latch_state := x \<rparr>
     in (c, f))"

definition MMU_loadState :: "MMU \<Rightarrow> ifstream \<Rightarrow> MMU \<times> ifstream" where
  "MMU_loadState m f =
    (let (x, f) = read_array 0x2000 (wram m) f; m = m\<lparr> wram := x \<rparr>;
         (x, f) = read_array 0x2000 (vram m) f; m = m\<lparr> vram := x \<rparr>;
         (x, f) = read_array 0x80 (hram m) f; m = m\<lparr> hram := x \<rparr>;
         (x, f) = read_array 0xA0 (oam m) f; m = m\<lparr> oam := x \<rparr>;
         (x, f) = read_array 0x80 (io m) f; m = m\<lparr> io := x \<rparr>;
         (x, f) = read_u8 (ie_register m) f; m = m\<lparr> ie_register := x \<rparr>
     in case cartridge m of
          None \<Rightarrow> (m, f)
        | Some c \<Rightarrow> (let (c, f) = Cartridge_loadState c f in (m\<lparr> cartridge := Some c \<rparr>, f)))"

text \<open>The loaders of the PPU, the APU and the timer are empty stubs in the source.\<close>

definition PPU_loadState :: "PPU \<Rightarrow> ifstream \<Rightarrow> PPU \<times> ifstream" where
  "PPU_loadState p f = (p, f)"

definition APU_loadState :: "APU \<Rightarrow> ifstream \<Rightarrow> APU \<times> ifstream" where
  "APU_loadState a f = (a, f)"

definition Timer_loadState :: "Timer \<Rightarrow> ifstream \<Rightarrow> Timer \<times> ifstream" where
  "Timer_loadState t f = (t, f)"

subsection \<open>The envelope\<close>

text \<open>\<open>MAGIC\<close> is the string "GBSTATE" as bytes; as a C string it is followed by a NUL.\<close>

definition MAGIC :: "u8 list" where
  "MAGIC = [0x47, 0x42, 0x53, 0x54, 0x41, 0x54, 0x45]"

definition VERSION :: u8 where
  "VERSION = 1"

text \<open>\<open>strcmp(a, b) == 0\<close> on NUL-terminated buffers: the bytes before the first NUL agree.\<close>

definition c_str :: "u8 list \<Rightarrow> u8 list" where
  "c_str buf = takeWhile (\<lambda>b. b \<noteq> 0) buf"

definition strcmp_eq :: "u8 list \<Rightarrow> u8 list \<Rightarrow> bool" where
  "strcmp_eq a b = (c_str a = c_str b)"

text \<open>\<open>SaveState::load\<close>. The file is \<open>None\<close> when it cannot be opened. The five components
  are the objects passed by reference; the result pairs the returned flag with their state
  afterwards.\<close>

type_synonym emulator = "CPU \<times> MMU \<times> PPU \<times> APU \<times> Timer"

definition SaveState_load :: "u8 list option \<Rightarrow> emulator \<Rightarrow> bool \<times> emulator" where
  "SaveState_load file s =
    (case file of
       None \<Rightarrow> (False, s)
     | Some bytes \<Rightarrow>
        (let f = \<lparr> remaining = bytes, fail = False \<rparr>;
             (bs, f) = stream_read 7 (replicate 7 0) f;
             magic = bs @ [0];
             (version, f) = read_u8 0 f
         in if \<not> strcmp_eq magic (MAGIC @ [0]) then (False, s)
            else if version \<noteq> VERSION then (False, s)
            else (case s of (c, m, p, a, t) \<Rightarrow>
                   (let (c, f) = CPU_loadState c f;
                        (m, f) = MMU_loadState m f;
                        (p, f) = PPU_loadState p f;
                        (a, f) = APU_loadState a f;
                        (t, f) = Timer_loadState t f
                    in (True, (c, m, p, a, t))))))"

section \<open>Auxiliary views of the timer\<close>

text \<open>One pass through the body of the \<open>while\<close> loop of \<open>checkTIMA\<close>.\<close>

definition tima_body :: "u8 \<Rightarrow> MMU \<Rightarrow> MMU" where
  "tima_body tac m =
    (let m = m\<lparr> timer := (timer m)\<lparr> tima_counter := tima_counter (timer m) - threshold_of tac \<rparr> \<rparr>;
         tima = MMU_read m 0xFF05
     in (if tima = 0xFF then
           (let tma = MMU_read m 0xFF06;
                m = MMU_write m 0xFF05 tma;
                if_reg = MMU_read m 0xFF0F
            in MMU_write m 0xFF0F (if_reg OR 0x04))
         else MMU_write m 0xFF05 (tima + 1)))"

text \<open>What a program sees of the timer: TIMA (0xFF05), TMA (0xFF06) and IF (0xFF0F), read
  through the bus.\<close>

definition tima_view :: "MMU \<Rightarrow> u8 \<times> u8 \<times> u8" where
  "tima_view m = (MMU_read m 0xFF05, MMU_read m 0xFF06, MMU_read m 0xFF0F)"

text \<open>One increment of TIMA in the words of the specification: on overflow from 0xFF, TIMA is
  reloaded from TMA and bit 2 of IF is set.\<close>

fun tima_increment :: "u8 \<times> u8 \<times> u8 \<Rightarrow> u8 \<times> u8 \<times> u8" where
  "tima_increment (tima, tma, iflags) =
     (if tima = 0xFF then (tma, tma, iflags OR 0x04) else (tima + 1, tma, iflags))"

text \<open>A sequence of \<open>Timer::step\<close> calls, each with its own cycle count.\<close>

fun Timer_steps :: "i32 list \<Rightarrow> MMU \<Rightarrow> MMU" where
  "Timer_steps [] m = m"
| "Timer_steps (c # cs) m = Timer_steps cs (Timer_step c m)"

section \<open>DAA in the words of the specification\<close>

text \<open>The specification describes DAA as two steps in sequence: after an addition 0x06 is
  added if H = 1 or the low nibble exceeds 9, \<^emph>\<open>then\<close> 0x60 is added and C set if C = 1 or A
  exceeds 0x99; after a subtraction 0x06 is subtracted if H = 1 and 0x60 if C = 1. Here each
  step works on the accumulator the step before it left. This is the sentence of the
  specification, not \<open>CPU::DAA\<close> (that is \<open>DAA\<close> above); the two are compared below.\<close>

definition DAA_in_sequence :: "CPU \<Rightarrow> CPU" where
  "DAA_in_sequence c =
    (let carry = getFlag c FLAG_C;
         (a, carry) =
           (if \<not> getFlag c FLAG_N then
              (let a = (if getFlag c FLAG_H \<or> A c AND 0x0F > 9 then A c + 0x06 else A c)
               in if carry \<or> a > 0x99 then (a + 0x60, True) else (a, carry))
            else
              (let a = (if getFlag c FLAG_H then A c - 0x06 else A c)
               in (if carry then a - 0x60 else a, carry)));
         c = c\<lparr> A := a \<rparr>;
         c = setFlag c FLAG_Z (A c = 0);
         c = setFlag c FLAG_H False
     in setFlag c FLAG_C carry)"

section \<open>Sequences of bus writes\<close>

fun MMU_writes :: "(u16 \<times> u8) list \<Rightarrow> MMU \<Rightarrow> MMU" where
  "MMU_writes [] m = m"
| "MMU_writes ((a, v) # ws) m = MMU_writes ws (MMU_write m a v)"

section \<open>Concrete machine states used as examples\<close>

text \<open>A halted CPU on which an EI delay is still pending, as a save state can load it.\<close>

definition halted_pending_cpu :: CPU where
  "halted_pending_cpu = CPU_reset\<lparr> halted := True, ime_scheduled := True \<rparr>"


text \<open>A CPU with IME set, and a bus with IE = 0x01 and IF = 0x01: the V-blank interrupt is
  pending and enabled.\<close>

definition irq_cpu :: CPU where
  "irq_cpu = CPU_reset\<lparr> ime := True \<rparr>"

definition irq_mmu :: MMU where
  "irq_mmu = MMU_writes [(0xFFFF, 0x01), (0xFF0F, 0x01)] MMU_init"

text \<open>The PPU at the start of line 144 in V-blank, with LYC = 145 and the LYC=LY interrupt
  enabled in STAT (bit 6), the mode bits of STAT showing mode 1.\<close>

definition vblank_ppu :: PPU where
  "vblank_ppu = \<lparr> mode = VBLANK, mode_cycles = 0, scanline = 144, frame_ready = True \<rparr>"

definition vblank_mmu :: MMU where
  "vblank_mmu = MMU_writes [(0xFF45, 145), (0xFF41, 0x41)] (setLY MMU_init 144)"


text \<open>The program EI; NOP; DI in work RAM at 0xC000, with PC there, IME clear, IE = 0x01 and
  IF = 0x01.\<close>

definition ei_cpu :: CPU where
  "ei_cpu = CPU_reset\<lparr> PC := 0xC000 \<rparr>"

definition ei_mmu :: MMU where
  "ei_mmu = MMU_writes [(0xC000, 0xFB), (0xC001, 0x00), (0xC002, 0xF3),
     (0xFFFF, 0x01), (0xFF0F, 0x01)] MMU_init"


text \<open>A fresh bus on which the program has set TAC = 0x05 and TMA = TIMA = 0xFF.\<close>

definition wrapping_timer_mmu :: MMU where
  "wrapping_timer_mmu = MMU_writes [(0xFF07, 0x05), (0xFF06, 0xFF), (0xFF05, 0xFF)] MMU_init"

section \<open>Properties\<close>

declare div_loop.simps [simp del] tima_loop.simps [simp del]

subsection \<open>The interrupt flag register on the bus\<close>

lemma io_doDMATransfer_fold:
  "io (fold (\<lambda>i m. m\<lparr> oam := (oam m)(i := MMU_read m (s + of_nat i)) \<rparr>) xs m) = io m"
  by (induction xs arbitrary: m) simp_all

lemma io_doDMATransfer: "io (doDMATransfer m v) = io m"
  by (simp add: doDMATransfer_def Let_def io_doDMATransfer_fold)

lemma MMU_read_IF: "MMU_read m 0xFF0F = io m 0x0F"
  by (simp add: MMU_read_def)

lemma MMU_read_IE: "MMU_read m 0xFFFF = ie_register m"
  by (simp add: MMU_read_def)

lemma io_MMU_write_IF: "io (MMU_write m 0xFF0F v) 0x0F = v"
  by (simp add: MMU_write_def)

lemma io_MMU_write_other:
  assumes "a \<noteq> 0xFF0F"
  shows "io (MMU_write m a v) 0x0F = io m 0x0F"
proof -
  have ne: "unat a \<noteq> 0xFF0F"
  proof
    assume "unat a = 0xFF0F"
    then have "of_nat (unat a) = (of_nat 0xFF0F :: u16)" by simp
    then show False using assms by simp
  qed
  have ge: "\<not> a < 0xFF00 \<Longrightarrow> 0xFF00 \<le> unat a"
    by (simp add: word_less_nat_alt)
  show ?thesis
    using ne ge
    by (auto simp add: MMU_write_def Let_def io_doDMATransfer split: option.splits)
qed

text \<open>Claim C3 says that a read of 0xFF0F always has bits 5-7 set, whatever was written.
  The bus has no such mask: a CPU write of 0x00 to 0xFF0F is read back as 0x00.\<close>

theorem IF_upper_bits_counterexample:
  "MMU_read (MMU_writes [(0xFF0F, 0x00)] MMU_init) 0xFF0F AND 0xE0 \<noteq> 0xE0"
  by (simp add: MMU_read_def MMU_write_def)

text \<open>Claim C3, as amended: a read of 0xFF0F returns the stored byte as it is. After any
  sequence of bus writes it is the value of the last write to 0xFF0F, or the byte held before
  when there was none; on a freshly constructed bus it is 0xE0. Bits 5-7 therefore read as 1
  exactly when they are 1 in that byte.\<close>

theorem IF_read_returns_stored:
  "MMU_read (MMU_writes ws m) 0xFF0F =
     last (io m 0x0F # map snd (filter (\<lambda>w. fst w = 0xFF0F) ws))
   \<and> MMU_read MMU_init 0xFF0F = 0xE0"
proof
  show "MMU_read (MMU_writes ws m) 0xFF0F =
     last (io m 0x0F # map snd (filter (\<lambda>w. fst w = 0xFF0F) ws))"
  proof (induction ws arbitrary: m)
    case Nil
    show ?case by (simp add: MMU_read_IF)
  next
    case (Cons w ws)
    obtain a v where w: "w = (a, v)" by (cases w)
    show ?case
    proof (cases "a = 0xFF0F")
      case True
      then show ?thesis using Cons.IH[of "MMU_write m a v"] w
        by (simp add: io_MMU_write_IF)
    next
      case False
      then show ?thesis using Cons.IH[of "MMU_write m a v"] w
        by (simp add: io_MMU_write_other)
    qed
  qed
  show "MMU_read MMU_init 0xFF0F = 0xE0"
    by (simp add: MMU_read_def MMU_init_def io_init_def)
qed

theorem IF_read_returns_stored_witness:
  "MMU_read (MMU_writes [(0xFF0F, 0x1F), (0xC000, 0x07)] MMU_init) 0xFF0F = 0x1F"
  using IF_read_returns_stored [of "[(0xFF0F, 0x1F), (0xC000, 0x07)]" MMU_init]
  by simp

subsection \<open>A step of a halted CPU\<close>

text \<open>Claim C10 says that a step of a halted CPU with no pending enabled interrupt changes
  nothing but the cycle counter. When an EI delay is still scheduled, the step applies it
  first: IME goes from false to true.\<close>

theorem halted_step_frame_counterexample:
  "halted halted_pending_cpu
   \<and> MMU_read MMU_init 0xFF0F AND MMU_read MMU_init 0xFFFF AND 0x1F = 0
   \<and> ime (fst (the (CPU_step (halted_pending_cpu, MMU_init)))) \<noteq> ime halted_pending_cpu"
  by (simp add: CPU_step_def halted_pending_cpu_def CPU_reset_def MMU_init_def MMU_read_def
      io_init_def Let_def)

text \<open>Claim C10, as amended: in a halted state with \<open>IF & IE & 0x1F = 0\<close>, a step returns,
  adds exactly 4 to the cycle counter (modulo \<open>2^32\<close>), applies a scheduled IME enable (IME
  becomes true if \<open>ime_scheduled\<close> was set and is unchanged otherwise, \<open>ime_scheduled\<close> is
  cleared) and leaves PC, SP, the eight registers, the halted and stopped flags and the
  whole bus unchanged.\<close>

theorem halted_step_frame:
  assumes "halted c" and "MMU_read m 0xFF0F AND MMU_read m 0xFFFF AND 0x1F = 0"
  shows "CPU_step (c, m) =
    Some (c\<lparr> ime := ime c \<or> ime_scheduled c, ime_scheduled := False,
             cycles := cycles c + 4 \<rparr>, m)"
  using assms by (cases "ime_scheduled c") (simp_all add: CPU_step_def Let_def)

theorem halted_step_frame_witness:
  "halted (CPU_reset\<lparr> halted := True \<rparr>)
   \<and> MMU_read MMU_init 0xFF0F AND MMU_read MMU_init 0xFFFF AND 0x1F = 0
   \<and> CPU_step (CPU_reset\<lparr> halted := True \<rparr>, MMU_init) =
       Some (CPU_reset\<lparr> halted := True, cycles := 4 \<rparr>, MMU_init)"
  using halted_step_frame [of "CPU_reset\<lparr> halted := True \<rparr>" MMU_init]
  by (simp add: CPU_reset_def MMU_init_def MMU_read_def io_init_def)

subsection \<open>The timer\<close>

lemma threshold_pos: "0 < sint (threshold_of tac)"
  by (simp add: threshold_of_def Let_def)


lemma sint_sub_no_wrap:
  fixes t th :: i32
  assumes "0 < sint th" and "sint th \<le> sint t"
  shows "sint (t - th) = sint t - sint th"
proof -
  have "sint t < 2 ^ 31" using sint_lt [of t] by simp
  with assms show ?thesis
    by (simp add: sint_word_ariths signed_take_bit_int_eq_self)
qed


lemma tima_loop_unfold:
  "tima_loop tac m =
    (if sint (threshold_of tac) \<le> sint (tima_counter (timer m))
     then tima_loop tac (tima_body tac m) else m)"
  by (subst tima_loop.simps) (simp add: tima_body_def Let_def)


lemma tima_body_timer:
  "timer (tima_body tac m) =
     (timer m)\<lparr> tima_counter := tima_counter (timer m) - threshold_of tac \<rparr>"
  by (simp add: tima_body_def Let_def MMU_read_def MMU_write_def)

lemma tima_body_io: "k \<noteq> 0x05 \<Longrightarrow> k \<noteq> 0x0F \<Longrightarrow> io (tima_body tac m) k = io m k"
  by (simp add: tima_body_def Let_def MMU_read_def MMU_write_def)

lemma tima_body_counter:
  assumes "sint (threshold_of tac) \<le> sint (tima_counter (timer m))"
  shows "sint (tima_counter (timer (tima_body tac m))) =
           sint (tima_counter (timer m)) - sint (threshold_of tac)"
  using sint_sub_no_wrap [OF threshold_pos assms] by (simp add: tima_body_timer)

text \<open>The loop leaves every IO byte but TIMA and IF alone, and the divider accumulator too.\<close>

lemma tima_loop_frame:
  "(\<forall>k. k \<noteq> 0x05 \<longrightarrow> k \<noteq> 0x0F \<longrightarrow> io (tima_loop tac m) k = io m k)
   \<and> div_counter (timer (tima_loop tac m)) = div_counter (timer m)"
proof (induction "nat (sint (tima_counter (timer m)))" arbitrary: m rule: less_induct)
  case less
  show ?case
  proof (cases "sint (threshold_of tac) \<le> sint (tima_counter (timer m))")
    case False
    then show ?thesis by (subst (1 2) tima_loop_unfold) simp
  next
    case True
    have "nat (sint (tima_counter (timer (tima_body tac m)))) < nat (sint (tima_counter (timer m)))"
      using True threshold_pos [of tac] by (simp add: tima_body_counter)
    from less.hyps [OF this] show ?thesis
      using True by (subst (1 2) tima_loop_unfold) (simp add: tima_body_io tima_body_timer)
  qed
qed


text \<open>The divider loop: the bus write in its body resets the accumulator it counts with and
  stores 0, so it runs at most once and DIV ends as 0.\<close>

lemma div_loop_eq:
  "div_loop m =
    (if 64 \<le> sint (div_counter (timer m))
     then m\<lparr> timer := (timer m)\<lparr> div_counter := 0 \<rparr>, io := (io m)(0x04 := 0) \<rparr> else m)"
  by (subst div_loop.simps, subst div_loop.simps)
     (simp add: Let_def MMU_write_def MMU_read_def resetDIV_def)




lemma tima_loop_stop:
  "\<not> sint (threshold_of tac) \<le> sint (tima_counter (timer m)) \<Longrightarrow> tima_loop tac m = m"
  by (subst tima_loop_unfold) simp




lemma wrapping_timer_mmu_eq:
  "wrapping_timer_mmu = MMU_init\<lparr> io := io_init(0x07 := 0x05, 0x06 := 0xFF, 0x05 := 0xFF) \<rparr>"
  by (simp add: wrapping_timer_mmu_def MMU_write_def MMU_init_def)

lemma wrapping_timer_steps:
  "Timer_steps [3, 2147483645] wrapping_timer_mmu =
     wrapping_timer_mmu\<lparr> timer := \<lparr> div_counter = 2147483648, tima_counter = 2147483648 \<rparr> \<rparr>"
proof -
  have s1: "Timer_step 3 wrapping_timer_mmu =
      wrapping_timer_mmu\<lparr> timer := \<lparr> div_counter = 3, tima_counter = 3 \<rparr> \<rparr>"
    by (simp add: wrapping_timer_mmu_eq Timer_step_def checkTIMA_def div_loop_eq tima_loop_stop
        Let_def MMU_read_def MMU_init_def Timer_init_def threshold_of_def)
  have s2: "Timer_step 2147483645 (wrapping_timer_mmu\<lparr> timer := \<lparr> div_counter = 3, tima_counter = 3 \<rparr> \<rparr>) =
      wrapping_timer_mmu\<lparr> timer := \<lparr> div_counter = 2147483648, tima_counter = 2147483648 \<rparr> \<rparr>"
    by (simp add: wrapping_timer_mmu_eq Timer_step_def checkTIMA_def div_loop_eq tima_loop_stop
        Let_def MMU_read_def MMU_init_def Timer_init_def threshold_of_def)
  show ?thesis by (simp add: s1 s2)
qed

lemma tima_increment_saturated:
  "(tima_increment ^^ Suc n) (0xFF, 0xFF, 0xE0) = (0xFF, 0xFF, 0xE4)"
  by (induction n) simp_all

text \<open>The bound on the cycle counts is needed as well: the accumulators are 32-bit, and a step
  that carries one past \<open>2147483647\<close> leaves it negative, so the loop does not run. With
  TIMA = TMA = 0xFF, steps of 3 and 2147483645 M-cycles (\<open>4 * 536870912\<close> in total) leave IF at
  0xE0, where a single increment would already have set bit 2.\<close>

lemma Timer_steps_wrap:
  "sum_list (map sint [3, 2147483645 :: i32]) = 4 * int 536870912
   \<and> tima_view wrapping_timer_mmu = (0xFF, 0xFF, 0xE0)
   \<and> tima_view (Timer_steps [3, 2147483645] wrapping_timer_mmu) = (0xFF, 0xFF, 0xE0)
   \<and> (tima_increment ^^ 536870912) (tima_view wrapping_timer_mmu) = (0xFF, 0xFF, 0xE4)"
proof -
  have view: "tima_view wrapping_timer_mmu = (0xFF, 0xFF, 0xE0)"
    by (simp add: wrapping_timer_mmu_eq tima_view_def MMU_read_def MMU_init_def io_init_def)
  have view': "tima_view (Timer_steps [3, 2147483645] wrapping_timer_mmu) = (0xFF, 0xFF, 0xE0)"
    unfolding wrapping_timer_steps
    by (simp add: wrapping_timer_mmu_eq tima_view_def MMU_read_def MMU_init_def io_init_def)
  have n: "(536870912 :: nat) = Suc 536870911" by simp
  have many: "(tima_increment ^^ 536870912) (0xFF, 0xFF, 0xE0) = (0xFF, 0xFF, 0xE4)"
    by (subst n) (rule tima_increment_saturated)
  have total: "sum_list (map sint [3, 2147483645 :: i32]) = 4 * int 536870912" by simp
  show ?thesis
    by (simp only: view view' many total)
qed



text \<open>Claim C1 says that DIV counts up once per 64 M-cycles and that a write to 0xFF04 resets
  it. The reset holds; the count does not: the step stores the incremented DIV with an
  ordinary bus write to 0xFF04, which is the reset. So after any step the DIV byte is 0 if the
  accumulator reached 64 and unchanged otherwise, and the accumulator is then 0 as well.\<close>

theorem Timer_step_DIV:
  "MMU_read (Timer_step cyc m) 0xFF04 =
     (if 64 \<le> sint (div_counter (timer m) + cyc) then 0 else MMU_read m 0xFF04)
   \<and> div_counter (timer (Timer_step cyc m)) =
     (if 64 \<le> sint (div_counter (timer m) + cyc) then 0 else div_counter (timer m) + cyc)
   \<and> MMU_read (MMU_write m 0xFF04 v) 0xFF04 = 0
   \<and> div_counter (timer (MMU_write m 0xFF04 v)) = 0"
proof -
  let ?m0 = "m\<lparr> timer := (timer m)\<lparr> div_counter := div_counter (timer m) + cyc \<rparr> \<rparr>"
  let ?m1 = "div_loop ?m0"
  have fr: "io (checkTIMA cyc ?m1) 0x04 = io ?m1 0x04
      \<and> div_counter (timer (checkTIMA cyc ?m1)) = div_counter (timer ?m1)"
    using tima_loop_frame [of "MMU_read ?m1 0xFF07"
        "?m1\<lparr> timer := (timer ?m1)\<lparr> tima_counter := tima_counter (timer ?m1) + cyc \<rparr> \<rparr>"]
    by (simp add: checkTIMA_def Let_def)
  have st: "Timer_step cyc m = checkTIMA cyc ?m1"
    by (simp add: Timer_step_def Let_def)
  show ?thesis
    unfolding st using fr
    by (simp add: div_loop_eq MMU_read_def MMU_write_def resetDIV_def)
qed

theorem Timer_step_DIV_witness:
  "MMU_read MMU_init 0xFF04 = 0 \<and> MMU_read (Timer_step 64 MMU_init) 0xFF04 = 0
   \<and> MMU_read (Timer_steps [64, 64, 64, 64] MMU_init) 0xFF04 = 0"
  using Timer_step_DIV [of 64 MMU_init]
    Timer_step_DIV [of 64 "Timer_step 64 MMU_init"]
    Timer_step_DIV [of 64 "Timer_step 64 (Timer_step 64 MMU_init)"]
    Timer_step_DIV [of 64 "Timer_step 64 (Timer_step 64 (Timer_step 64 MMU_init))"]
  by (simp add: MMU_read_def MMU_init_def io_init_def Timer_init_def)

subsection \<open>Interrupt dispatch and the PPU line counter\<close>

lemma service_interrupt_cycles:
  "cycles (fst (service_interrupt i iflags c m)) = cycles c + 28"
  by (simp add: service_interrupt_def push16_def write16_def write8_def Let_def split_def)

lemma mask_1F: "(0x1F::u8) = mask 5"
  by (simp add: mask_eq_exp_minus_1)

lemma pending_bit:
  assumes "(a::u8) AND b AND 0x1F \<noteq> 0"
  shows "\<exists>i \<in> {0, 1, 2, 3, 4}. (a AND b AND 0x1F) AND push_bit i 1 \<noteq> 0"
proof -
  from assms obtain n where n: "bit (a AND b AND 0x1F) n"
    by (auto simp add: bit_eq_iff)
  then have "n < 5" by (simp add: mask_1F bit_simps)
  then have "n \<in> {0, 1, 2, 3, 4}" by auto
  moreover have "(a AND b AND 0x1F) AND push_bit n 1 \<noteq> 0"
    using n bit_iff_and_push_bit_not_eq_0 [of "a AND b AND 0x1F" n] by simp
  ultimately show ?thesis by blast
qed

lemma find_pending:
  assumes "(a::u8) AND b AND 0x1F \<noteq> 0"
  shows "\<exists>i. find (\<lambda>i. (a AND b AND 0x1F) AND push_bit i 1 \<noteq> 0) [0, 1, 2, 3, 4] = Some i"
proof -
  from pending_bit [OF assms]
  have "\<exists>i \<in> set [0, 1, 2, 3, 4::nat]. (a AND b AND 0x1F) AND push_bit i 1 \<noteq> 0"
    by simp
  then have "find (\<lambda>i. (a AND b AND 0x1F) AND push_bit i 1 \<noteq> 0) [0, 1, 2, 3, 4] \<noteq> None"
    by (simp only: find_None_iff) blast
  then show ?thesis by blast
qed

text \<open>Claim C5 says that servicing a pending interrupt advances the cycle counter by exactly 20
  T-cycles in total. The code charges the two bus writes of the push (4 each) and then adds
  20: whenever IME is set and \<open>IF & IE & 0x1F\<close> is non-zero, the counter advances by 28
  (modulo \<open>2^32\<close>).\<close>

theorem interrupt_dispatch_cycles:
  assumes "ime c" and "MMU_read m 0xFF0F AND MMU_read m 0xFFFF AND 0x1F \<noteq> 0"
  shows "cycles (fst (handleInterrupts c m)) = cycles c + 28"
proof -
  from find_pending [OF assms(2)] obtain i where
    "find (\<lambda>i. (MMU_read m 0xFF0F AND MMU_read m 0xFFFF AND 0x1F) AND push_bit i 1 \<noteq> 0)
       [0, 1, 2, 3, 4] = Some i" ..
  then show ?thesis
    using assms by (simp add: handleInterrupts_def Let_def service_interrupt_cycles)
qed

lemma irq_mmu_eq: "irq_mmu = MMU_init\<lparr> ie_register := 0x01, io := io_init(0x0F := 0x01) \<rparr>"
  by (simp add: irq_mmu_def MMU_write_def MMU_init_def)

theorem interrupt_dispatch_cycles_witness:
  "cycles (fst (handleInterrupts irq_cpu irq_mmu)) = 28 \<and> cycles irq_cpu = 0"
proof -
  have i: "ime irq_cpu" by (simp add: irq_cpu_def)
  have p: "MMU_read irq_mmu 0xFF0F AND MMU_read irq_mmu 0xFFFF AND 0x1F \<noteq> 0"
    by (simp add: irq_mmu_eq MMU_read_def)
  have z: "cycles irq_cpu = 0" by (simp add: irq_cpu_def CPU_reset_def)
  from interrupt_dispatch_cycles [OF i p] z show ?thesis by simp
qed

lemma and_bit_1: "(x AND 0x02 \<noteq> 0) = bit (x::u8) 1"
  using bit_iff_and_push_bit_not_eq_0 [of x 1] by simp

lemma and_bit_2: "(x AND 0x04 \<noteq> 0) = bit (x::u8) 2"
  using bit_iff_and_push_bit_not_eq_0 [of x 2] by simp

lemma and_bit_6: "(x AND 0x40 \<noteq> 0) = bit (x::u8) 6"
  using bit_iff_and_push_bit_not_eq_0 [of x 6] by simp

text \<open>The H-blank branch: every line change it makes (to lines 1-144) writes LY, sets STAT bit 2
  exactly when the new line equals LYC, and requests the STAT interrupt when STAT bit 6 is set
  as well.\<close>

lemma HBLANK_line_change:
  assumes "mode p = HBLANK" and "MMU_read m 0xFF40 AND 0x80 \<noteq> 0"
    and "204 \<le> mode_cycles p + cyc"
  shows "scanline (fst (PPU_step cyc p m)) = scanline p + 1
       \<and> MMU_read (snd (PPU_step cyc p m)) 0xFF44 = word_of_int (scanline p + 1)
       \<and> (MMU_read (snd (PPU_step cyc p m)) 0xFF41 AND 0x04 \<noteq> 0)
           = (scanline p + 1 = uint (MMU_read m 0xFF45))
       \<and> (scanline p + 1 = uint (MMU_read m 0xFF45) \<and> MMU_read m 0xFF41 AND 0x40 \<noteq> 0
            \<longrightarrow> MMU_read (snd (PPU_step cyc p m)) 0xFF0F AND 0x02 \<noteq> 0)"
  using assms
  by (cases "scanline p + 1 = uint (io m 0x45)"; cases "bit (io m 0x41) 6";
      cases "scanline p + 1 = 144")
     (simp_all add: PPU_step_def PPU_step_HBLANK_def setMode_def setLY_def Let_def split_def
        MMU_read_def MMU_write_def and_bit_1 and_bit_2 and_bit_6 bit_simps)

lemma vblank_mmu_eq:
  "vblank_mmu = MMU_init\<lparr> io := io_init(0x44 := 144, 0x45 := 145, 0x41 := 0x41) \<rparr>"
  by (simp add: vblank_mmu_def MMU_write_def MMU_init_def setLY_def)

text \<open>Claim C6 says that every scanline change re-evaluates the LYC=LY coincidence. The H-blank
  branch of \<open>PPU::step\<close> does; the V-blank branch only writes LY. Going from line 144 to line
  145 with LYC = 145 and STAT bit 6 set, LY becomes 145, yet STAT keeps bit 2 clear and IF
  keeps bit 1 clear.\<close>

theorem vblank_line_skips_coincidence:
  "MMU_read (snd (PPU_step 456 vblank_ppu vblank_mmu)) 0xFF44 = 145
   \<and> scanline (fst (PPU_step 456 vblank_ppu vblank_mmu)) = 145
   \<and> MMU_read (snd (PPU_step 456 vblank_ppu vblank_mmu)) 0xFF45 = 145
   \<and> MMU_read (snd (PPU_step 456 vblank_ppu vblank_mmu)) 0xFF41 = 0x41
   \<and> MMU_read (snd (PPU_step 456 vblank_ppu vblank_mmu)) 0xFF0F = 0xE0"
  by (simp add: PPU_step_def PPU_step_VBLANK_def vblank_ppu_def vblank_mmu_eq MMU_read_def
      MMU_init_def io_init_def setLY_def Let_def)

subsection \<open>Save states: the envelope check\<close>

lemma takeWhile_full:
  assumes "takeWhile P xs = ys" and "length ys = length xs"
  shows "xs = ys"
  using assms by (metis takeWhile_eq_take take_all order_refl)

lemma c_str_nul: "c_str (xs @ 0 # ys) = takeWhile (\<lambda>b. b \<noteq> 0) xs"
  by (simp add: c_str_def takeWhile_append takeWhile_eq_all_conv [THEN iffD2])

lemma c_str_MAGIC: "takeWhile (\<lambda>b. b \<noteq> 0) MAGIC = MAGIC"
  by (simp add: MAGIC_def)

lemma length_MAGIC: "length MAGIC = 7"
  by (simp add: MAGIC_def)

lemma magic_mismatch:
  assumes "take 7 bytes \<noteq> MAGIC"
  shows "\<not> strcmp_eq (fst (stream_read 7 (replicate 7 0) \<lparr> remaining = bytes, fail = False \<rparr>) @ [0])
            (MAGIC @ [0])"
proof (cases "7 \<le> length bytes")
  case True
  have "takeWhile (\<lambda>b. b \<noteq> 0) (take 7 bytes) \<noteq> MAGIC"
  proof
    assume tw: "takeWhile (\<lambda>b. b \<noteq> 0) (take 7 bytes) = MAGIC"
    have "take 7 bytes = MAGIC"
      by (rule takeWhile_full [OF tw]) (use True in \<open>simp add: length_MAGIC\<close>)
    with assms show False by simp
  qed
  with True show ?thesis
    by (simp add: strcmp_eq_def stream_read_def c_str_MAGIC c_str_nul)
next
  case False
  have buf: "fst (stream_read 7 (replicate 7 0) \<lparr> remaining = bytes, fail = False \<rparr>) @ [0]
      = bytes @ 0 # replicate (7 - length bytes) 0"
    using False by (simp add: stream_read_def replicate_append_same)
  have "length (takeWhile (\<lambda>b. b \<noteq> 0) bytes) \<le> length bytes"
    by (rule length_takeWhile_le)
  then have "takeWhile (\<lambda>b. b \<noteq> 0) bytes \<noteq> MAGIC"
    using False length_MAGIC by auto
  then show ?thesis
    unfolding buf by (simp add: strcmp_eq_def c_str_MAGIC c_str_nul)
qed

lemma version_mismatch:
  assumes "take 1 (drop 7 bytes) \<noteq> [VERSION]"
  shows "fst (read_u8 0 (snd (stream_read 7 (replicate 7 0) \<lparr> remaining = bytes, fail = False \<rparr>)))
           \<noteq> VERSION"
proof (cases "7 \<le> length bytes")
  case True
  show ?thesis
  proof (cases "drop 7 bytes")
    case Nil
    with True show ?thesis
      by (simp add: read_u8_def stream_read_def VERSION_def)
  next
    case (Cons b bs)
    with assms have "b \<noteq> VERSION" by simp
    with True Cons show ?thesis
      by (simp add: read_u8_def stream_read_def)
  qed
next
  case False
  then show ?thesis
    by (simp add: read_u8_def stream_read_def VERSION_def)
qed

text \<open>A file with the right magic and version is accepted, however short the rest is.\<close>

lemma load_accepts_good_header:
  "fst (SaveState_load (Some (MAGIC @ VERSION # rest)) s)"
  by (simp add: SaveState_load_def stream_read_def read_u8_def strcmp_eq_def c_str_def
      MAGIC_def VERSION_def Let_def split_def)

text \<open>Claim C9: for every file that can be opened and whose first 7 bytes are not "GBSTATE", or
  whose byte at offset 7 is not the version 1 (files too short to hold them included), the
  loader returns false and the CPU, the bus, the PPU, the APU and the timer are exactly as
  before.\<close>

theorem load_rejects_bad_header:
  assumes "take 7 bytes \<noteq> MAGIC \<or> take 1 (drop 7 bytes) \<noteq> [VERSION]"
  shows "SaveState_load (Some bytes) s = (False, s)"
proof -
  let ?f0 = "\<lparr> remaining = bytes, fail = False \<rparr>"
  let ?r = "stream_read 7 (replicate 7 0) ?f0"
  have "\<not> strcmp_eq (fst ?r @ [0]) (MAGIC @ [0]) \<or> fst (read_u8 0 (snd ?r)) \<noteq> VERSION"
    using assms magic_mismatch [of bytes] version_mismatch [of bytes] by blast
  then show ?thesis
    by (auto simp add: SaveState_load_def Let_def split_def)
qed

theorem load_rejects_bad_header_witness:
  "SaveState_load (Some [0x47, 0x42, 0x53, 0x54, 0x41, 0x54, 0x45, 0x02, 0x00])
      (CPU_reset, MMU_init, PPU_init, APU_init, Timer_init)
    = (False, (CPU_reset, MMU_init, PPU_init, APU_init, Timer_init))
   \<and> SaveState_load (Some [0x47, 0x42, 0x58])
      (CPU_reset, MMU_init, PPU_init, APU_init, Timer_init)
    = (False, (CPU_reset, MMU_init, PPU_init, APU_init, Timer_init))"
  using load_rejects_bad_header [of "[0x47, 0x42, 0x53, 0x54, 0x41, 0x54, 0x45, 0x02, 0x00]"
      "(CPU_reset, MMU_init, PPU_init, APU_init, Timer_init)"]
    load_rejects_bad_header [of "[0x47, 0x42, 0x58]"
      "(CPU_reset, MMU_init, PPU_init, APU_init, Timer_init)"]
  by (simp add: MAGIC_def VERSION_def)

subsection \<open>MBC1 bank selection\<close>




subsection \<open>DAA\<close>

lemma getFlag_bits:
  "getFlag c FLAG_Z = bit (F c) 7"
  "getFlag c FLAG_N = bit (F c) 6"
  "getFlag c FLAG_H = bit (F c) 5"
  "getFlag c FLAG_C = bit (F c) 4"
  using bit_iff_and_push_bit_not_eq_0 [of "F c" 7] bit_iff_and_push_bit_not_eq_0 [of "F c" 6]
    bit_iff_and_push_bit_not_eq_0 [of "F c" 5] bit_iff_and_push_bit_not_eq_0 [of "F c" 4]
  by (simp_all add: getFlag_def)

lemma getFlag_setFlag:
  "getFlag (setFlag c f v) g = (if f = g then v else getFlag c g)"
  by (cases f; cases g; cases v) (simp_all add: getFlag_bits setFlag_def bit_simps)

lemma setFlag_frame:
  "A (setFlag c f v) = A c"
  "setFlag c f v = c\<lparr> F := F (setFlag c f v) \<rparr>"
  by (simp_all add: setFlag_def)

lemma setFlag_low_nibble: "F (setFlag c f v) AND 0x0F = F c AND 0x0F"
  by (cases f; cases v)
     (simp_all add: setFlag_def bit.conj_disj_distrib2 and.assoc)

text \<open>Claim C7 says that after an addition 0x06 is added if H = 1 or the low nibble of A exceeds
  9, and then 0x60 is added and C set if C = 1 or A exceeds 0x99. \<open>CPU::DAA\<close> collects both
  corrections from the accumulator as it is on entry and adds them once, so the second test
  does not see the first addition. With A = 0x94 and H = 1 the code gives 0x9A with C clear,
  the two steps in sequence give 0xFA with C set; with A = 0xFA and no flag set the code gives
  0x60 with C set, the two steps in sequence give 0x00 with C clear.\<close>

theorem DAA_in_sequence_counterexample:
  "A (DAA (CPU_reset\<lparr> A := 0x94, F := 0x20 \<rparr>)) = 0x9A
   \<and> getFlag (DAA (CPU_reset\<lparr> A := 0x94, F := 0x20 \<rparr>)) FLAG_C = False
   \<and> A (DAA_in_sequence (CPU_reset\<lparr> A := 0x94, F := 0x20 \<rparr>)) = 0xFA
   \<and> getFlag (DAA_in_sequence (CPU_reset\<lparr> A := 0x94, F := 0x20 \<rparr>)) FLAG_C = True
   \<and> A (DAA (CPU_reset\<lparr> A := 0xFA, F := 0x00 \<rparr>)) = 0x60
   \<and> getFlag (DAA (CPU_reset\<lparr> A := 0xFA, F := 0x00 \<rparr>)) FLAG_C = True
   \<and> A (DAA_in_sequence (CPU_reset\<lparr> A := 0xFA, F := 0x00 \<rparr>)) = 0x00
   \<and> getFlag (DAA_in_sequence (CPU_reset\<lparr> A := 0xFA, F := 0x00 \<rparr>)) FLAG_C = False"
  by (simp add: DAA_def DAA_in_sequence_def Let_def getFlag_setFlag setFlag_frame(1))
     (simp add: getFlag_def)

text \<open>Claim C7, as amended: for every CPU state, DAA computes the following, where A, N, H and
  C on the right are the accumulator and the flags on entry (both tests of the addition case
  read A before anything is added). After an addition (N = 0), 0x06 is added if H = 1 or the
  low nibble of A exceeds 9, and 0x60 is added, and C set, if C = 1 or A exceeds 0x99. After a
  subtraction (N = 1), 0x06 is subtracted if H = 1 and 0x60 is subtracted if C = 1. Finally Z
  tells whether the new A is 0, H is 0, and C is its old value, promoted to 1 in the addition
  case when A exceeded 0x99. N, the low nibble of F and every other register are unchanged.\<close>

theorem DAA_adjusts:
  "A (DAA c) =
     (if \<not> getFlag c FLAG_N
      then A c + (if getFlag c FLAG_H \<or> 9 < A c AND 0x0F then 0x06 else 0)
               + (if getFlag c FLAG_C \<or> 0x99 < A c then 0x60 else 0)
      else A c - (if getFlag c FLAG_H then 0x06 else 0)
               - (if getFlag c FLAG_C then 0x60 else 0))
   \<and> getFlag (DAA c) FLAG_Z = (A (DAA c) = 0)
   \<and> getFlag (DAA c) FLAG_H = False
   \<and> getFlag (DAA c) FLAG_C =
       (if \<not> getFlag c FLAG_N then getFlag c FLAG_C \<or> 0x99 < A c else getFlag c FLAG_C)
   \<and> getFlag (DAA c) FLAG_N = getFlag c FLAG_N
   \<and> F (DAA c) AND 0x0F = F c AND 0x0F
   \<and> DAA c = c\<lparr> A := A (DAA c), F := F (DAA c) \<rparr>"
proof -
  define a where "a = (if \<not> getFlag c FLAG_N
      then A c + (if getFlag c FLAG_H \<or> 9 < A c AND 0x0F then 0x06 else 0)
               + (if getFlag c FLAG_C \<or> 0x99 < A c then 0x60 else 0)
      else A c - (if getFlag c FLAG_H then 0x06 else 0)
               - (if getFlag c FLAG_C then 0x60 else 0))"
  define carry where "carry =
       (if \<not> getFlag c FLAG_N then getFlag c FLAG_C \<or> 0x99 < A c else getFlag c FLAG_C)"
  note a = a_def and carry = carry_def
  have ac: "DAA c =
      setFlag (setFlag (setFlag (c\<lparr> A := a \<rparr>) FLAG_Z (a = 0)) FLAG_H False) FLAG_C carry"
    unfolding a_def carry_def
    by (cases "getFlag c FLAG_N"; cases "getFlag c FLAG_H"; cases "getFlag c FLAG_C";
        cases "9 < A c AND 0x0F"; cases "0x99 < A c")
       (simp_all add: DAA_def Let_def ac_simps)
  have gF: "\<And>g. getFlag (c\<lparr> A := a \<rparr>) g = getFlag c g"
    by (simp add: getFlag_def)
  have A': "A (DAA c) = a"
    unfolding ac by (simp add: setFlag_frame(1))
  have lo: "F (DAA c) AND 0x0F = F c AND 0x0F"
    unfolding ac by (simp add: setFlag_low_nibble)
  have fr: "DAA c = c\<lparr> A := A (DAA c), F := F (DAA c) \<rparr>"
    unfolding ac by (simp add: setFlag_def)
  show ?thesis
    using lo fr unfolding A'
    unfolding ac a [symmetric] carry [symmetric]
    by (simp add: getFlag_setFlag gF)
qed

theorem DAA_adjusts_witness:
  "A (DAA (CPU_reset\<lparr> A := 0x3C, F := 0x00 \<rparr>)) = 0x42
   \<and> getFlag (DAA (CPU_reset\<lparr> A := 0x3C, F := 0x00 \<rparr>)) FLAG_C = False
   \<and> A (DAA (CPU_reset\<lparr> A := 0x9A, F := 0x00 \<rparr>)) = 0x00
   \<and> getFlag (DAA (CPU_reset\<lparr> A := 0x9A, F := 0x00 \<rparr>)) FLAG_C = True
   \<and> getFlag (DAA (CPU_reset\<lparr> A := 0x9A, F := 0x00 \<rparr>)) FLAG_Z = True
   \<and> A (DAA (CPU_reset\<lparr> A := 0x3C, F := 0x60 \<rparr>)) = 0x36"
  using DAA_adjusts [of "CPU_reset\<lparr> A := 0x3C, F := 0x00 \<rparr>"]
    DAA_adjusts [of "CPU_reset\<lparr> A := 0x9A, F := 0x00 \<rparr>"]
    DAA_adjusts [of "CPU_reset\<lparr> A := 0x3C, F := 0x60 \<rparr>"]
  by (simp add: getFlag_def)

subsection \<open>EI, NOP, DI with a pending interrupt\<close>

lemma CPU_steps_2:
  "CPU_steps 2 cm = (case CPU_step cm of None \<Rightarrow> None | Some cm' \<Rightarrow> CPU_step cm')"
  by (simp add: numeral_2_eq_2 split: option.splits)

lemma EI_step:
  assumes "\<not> halted c" and "\<not> ime c" and "\<not> ime_scheduled c" and "MMU_read m (PC c) = 0xFB"
  shows "CPU_step (c, m) =
    Some (c\<lparr> PC := PC c + 1, cycles := cycles c + 4, ime_scheduled := True \<rparr>, m)"
  using assms
  by (cases c)
     (simp add: CPU_step_def read8_def executeOpcode_def EI_def handleInterrupts_def Let_def)

lemma NOP_step_after_EI:
  assumes "\<not> halted c" and "ime_scheduled c" and "MMU_read m (PC c) = 0x00"
  shows "CPU_step (c, m) =
    Some (handleInterrupts
            (c\<lparr> PC := PC c + 1, cycles := cycles c + 4, ime := True, ime_scheduled := False \<rparr>) m)"
  using assms
  by (cases c) (simp add: CPU_step_def read8_def executeOpcode_def NOP_def Let_def)

lemma handleInterrupts_vblank:
  assumes "ime c" and "MMU_read m 0xFF0F = 0x01" and "MMU_read m 0xFFFF = 0x01"
  shows "handleInterrupts c m = service_interrupt 0 0x01 c m"
  using assms by (simp add: handleInterrupts_def Let_def)

lemma service_interrupt_0:
  "service_interrupt 0 0x01 c m =
    (c\<lparr> halted := False, ime := False, SP := SP c - 2, PC := 0x0040, cycles := cycles c + 28 \<rparr>,
     MMU_write (MMU_write (MMU_write m 0xFF0F 0x00) (SP c - 2) (ucast (PC c AND 0xFF)))
       (SP c - 1) (ucast (drop_bit 8 (PC c))))"
  by (cases c) (simp add: service_interrupt_def push16_def write16_def write8_def Let_def)

lemma EI_NOP_steps:
  assumes "\<not> halted c" and "\<not> ime c" and "\<not> ime_scheduled c"
    and "MMU_read m (PC c) = 0xFB" and "MMU_read m (PC c + 1) = 0x00"
    and "MMU_read m 0xFF0F = 0x01" and "MMU_read m 0xFFFF = 0x01"
  shows "CPU_step (c, m) =
           Some (c\<lparr> PC := PC c + 1, cycles := cycles c + 4, ime_scheduled := True \<rparr>, m)
       \<and> CPU_steps 2 (c, m) =
           Some (handleInterrupts
                   (c\<lparr> PC := PC c + 2, cycles := cycles c + 8, ime := True \<rparr>) m)
       \<and> CPU_steps 2 (c, m) =
           Some (c\<lparr> PC := 0x0040, SP := SP c - 2, ime := False, cycles := cycles c + 36 \<rparr>,
                 MMU_write (MMU_write (MMU_write m 0xFF0F 0x00)
                    (SP c - 2) (ucast ((PC c + 2) AND 0xFF)))
                    (SP c - 1) (ucast (drop_bit 8 (PC c + 2))))"
proof -
  let ?c1 = "c\<lparr> PC := PC c + 1, cycles := cycles c + 4, ime_scheduled := True \<rparr>"
  let ?c2 = "c\<lparr> PC := PC c + 2, cycles := cycles c + 8, ime := True \<rparr>"
  have s1: "CPU_step (c, m) = Some (?c1, m)"
    by (rule EI_step [OF assms(1-4)])
  have "CPU_step (?c1, m) =
      Some (handleInterrupts (?c1\<lparr> PC := PC ?c1 + 1, cycles := cycles ?c1 + 4, ime := True,
              ime_scheduled := False \<rparr>) m)"
    by (rule NOP_step_after_EI) (use assms in simp_all)
  moreover have "?c1\<lparr> PC := PC ?c1 + 1, cycles := cycles ?c1 + 4, ime := True,
              ime_scheduled := False \<rparr> = ?c2"
    using assms(3) by (cases c) simp
  ultimately have s2: "CPU_step (?c1, m) = Some (handleInterrupts ?c2 m)"
    by simp
  have h: "handleInterrupts ?c2 m = service_interrupt 0 0x01 ?c2 m"
    by (rule handleInterrupts_vblank) (use assms in simp_all)
  have two: "CPU_steps 2 (c, m) = Some (handleInterrupts ?c2 m)"
    by (simp add: CPU_steps_2 s1 s2)
  have fin: "handleInterrupts ?c2 m =
      (c\<lparr> PC := 0x0040, SP := SP c - 2, ime := False, cycles := cycles c + 36 \<rparr>,
       MMU_write (MMU_write (MMU_write m 0xFF0F 0x00)
          (SP c - 2) (ucast ((PC c + 2) AND 0xFF)))
          (SP c - 1) (ucast (drop_bit 8 (PC c + 2))))"
    unfolding h service_interrupt_0 using assms(1) by (cases c) simp
  show ?thesis
    using s1 two fin by simp
qed

lemma DI_step_after_EI:
  assumes "\<not> halted c" and "ime_scheduled c" and "MMU_read m (PC c) = 0xF3"
  shows "CPU_step (c, m) =
    Some (c\<lparr> PC := PC c + 1, cycles := cycles c + 4, ime := False, ime_scheduled := False \<rparr>, m)"
  using assms
  by (cases c)
     (simp add: CPU_step_def read8_def executeOpcode_def DI_def handleInterrupts_def Let_def)

text \<open>When DI follows EI directly, IME is set before the DI and cleared by it, and the pending
  interrupt is not serviced: the delay of EI is one instruction.\<close>

lemma EI_DI_steps:
  assumes "\<not> halted c" and "\<not> ime c" and "\<not> ime_scheduled c"
    and "MMU_read m (PC c) = 0xFB" and "MMU_read m (PC c + 1) = 0xF3"
  shows "CPU_steps 2 (c, m) = Some (c\<lparr> PC := PC c + 2, cycles := cycles c + 8 \<rparr>, m)"
proof -
  let ?c1 = "c\<lparr> PC := PC c + 1, cycles := cycles c + 4, ime_scheduled := True \<rparr>"
  have s1: "CPU_step (c, m) = Some (?c1, m)"
    by (rule EI_step [OF assms(1-4)])
  have "CPU_step (?c1, m) =
      Some (?c1\<lparr> PC := PC ?c1 + 1, cycles := cycles ?c1 + 4, ime := False,
              ime_scheduled := False \<rparr>, m)"
    by (rule DI_step_after_EI) (use assms in simp_all)
  moreover have "?c1\<lparr> PC := PC ?c1 + 1, cycles := cycles ?c1 + 4, ime := False,
              ime_scheduled := False \<rparr> = c\<lparr> PC := PC c + 2, cycles := cycles c + 8 \<rparr>"
    using assms(2,3) by (cases c) simp
  ultimately show ?thesis
    by (simp add: CPU_steps_2 s1)
qed

text \<open>Claim C4, as amended: executing EI; NOP with IE = 1 and IF = 1, from a running CPU with
  IME clear and no enable scheduled. The EI step leaves IME false, sets \<open>ime_scheduled\<close> and
  services nothing. IME becomes true immediately before the NOP is fetched, so the NOP
  executes with IME true, and the interrupt check at the end of the NOP's step runs with IME
  set and services the V-blank interrupt: bit 0 of IF is cleared, IME is cleared, the address
  of the instruction after the NOP (the DI) is pushed and PC becomes 0x0040. The DI is
  therefore not the next instruction executed.\<close>

theorem EI_NOP_interrupt_after_NOP:
  assumes "\<not> halted c" and "\<not> ime c" and "\<not> ime_scheduled c"
    and "MMU_read m (PC c) = 0xFB" and "MMU_read m (PC c + 1) = 0x00"
    and "MMU_read m 0xFF0F = 0x01" and "MMU_read m 0xFFFF = 0x01"
  shows "CPU_step (c, m) =
           Some (c\<lparr> PC := PC c + 1, cycles := cycles c + 4, ime_scheduled := True \<rparr>, m)
       \<and> CPU_steps 2 (c, m) =
           Some (handleInterrupts
                   (c\<lparr> PC := PC c + 2, cycles := cycles c + 8, ime := True \<rparr>) m)
       \<and> CPU_steps 2 (c, m) =
           Some (c\<lparr> PC := 0x0040, SP := SP c - 2, ime := False, cycles := cycles c + 36 \<rparr>,
                 MMU_write (MMU_write (MMU_write m 0xFF0F 0x00)
                    (SP c - 2) (ucast ((PC c + 2) AND 0xFF)))
                    (SP c - 1) (ucast (drop_bit 8 (PC c + 2))))"
  by (rule EI_NOP_steps [OF assms])

lemma ei_mmu_eq:
  "ei_mmu = MMU_init\<lparr> wram := (\<lambda>_. 0)(0 := 0xFB, 1 := 0x00, 2 := 0xF3), ie_register := 0x01,
     io := io_init(0x0F := 0x01) \<rparr>"
  by (simp add: ei_mmu_def MMU_write_def MMU_init_def)

lemma ei_example_facts:
  "\<not> halted ei_cpu" "\<not> ime ei_cpu" "\<not> ime_scheduled ei_cpu"
  "PC ei_cpu = 0xC000" "SP ei_cpu = 0xFFFE" "cycles ei_cpu = 0"
  "MMU_read ei_mmu 0xC000 = 0xFB" "MMU_read ei_mmu 0xC001 = 0x00" "MMU_read ei_mmu 0xC002 = 0xF3"
  "MMU_read ei_mmu 0xFF0F = 0x01" "MMU_read ei_mmu 0xFFFF = 0x01"
  by (simp_all add: ei_cpu_def CPU_reset_def ei_mmu_eq MMU_read_def)

lemma ei_example_hyps:
  "MMU_read ei_mmu (PC ei_cpu) = 0xFB" "MMU_read ei_mmu (PC ei_cpu + 1) = 0x00"
  "MMU_read ei_mmu (PC ei_cpu + 2) = 0xF3"
  by (simp_all add: ei_example_facts)

theorem EI_NOP_interrupt_after_NOP_witness:
  "CPU_steps 2 (ei_cpu, ei_mmu) =
     Some (ei_cpu\<lparr> PC := 0x0040, SP := 0xFFFC, ime := False, cycles := 36 \<rparr>,
           MMU_write (MMU_write (MMU_write ei_mmu 0xFF0F 0x00) 0xFFFC 0x02) 0xFFFD 0xC0)"
  using EI_NOP_interrupt_after_NOP [of ei_cpu ei_mmu, OF ei_example_facts(1,2,3)
      ei_example_hyps(1,2) ei_example_facts(10,11), THEN conjunct2, THEN conjunct2]
  by (simp add: ei_example_facts)

text \<open>Claim C4 says that in EI; NOP; DI with IE = 1 and IF = 1 the NOP runs with IME still
  false and no interrupt is serviced. On the program below the interrupt has been serviced after
  the second step, before the DI at 0xC002 is reached: PC is the V-blank vector, IF is
  cleared and the return address 0xC002 lies on the stack.\<close>

theorem EI_NOP_DI_counterexample:
  "MMU_read ei_mmu (PC ei_cpu) = 0xFB \<and> MMU_read ei_mmu (PC ei_cpu + 1) = 0x00
   \<and> MMU_read ei_mmu (PC ei_cpu + 2) = 0xF3
   \<and> MMU_read ei_mmu 0xFFFF = 0x01 \<and> MMU_read ei_mmu 0xFF0F = 0x01
   \<and> CPU_steps 2 (ei_cpu, ei_mmu) \<noteq> None
   \<and> PC (fst (the (CPU_steps 2 (ei_cpu, ei_mmu)))) = 0x0040
   \<and> MMU_read (snd (the (CPU_steps 2 (ei_cpu, ei_mmu)))) 0xFF0F = 0x00
   \<and> SP (fst (the (CPU_steps 2 (ei_cpu, ei_mmu)))) = 0xFFFC
   \<and> MMU_read (snd (the (CPU_steps 2 (ei_cpu, ei_mmu)))) 0xFFFC = 0x02
   \<and> MMU_read (snd (the (CPU_steps 2 (ei_cpu, ei_mmu)))) 0xFFFD = 0xC0"
proof -
  have steps: "CPU_steps 2 (ei_cpu, ei_mmu) =
     Some (ei_cpu\<lparr> PC := 0x0040, SP := 0xFFFC, ime := False, cycles := 36 \<rparr>,
           MMU_write (MMU_write (MMU_write ei_mmu 0xFF0F 0x00) 0xFFFC 0x02) 0xFFFD 0xC0)"
    using EI_NOP_steps [of ei_cpu ei_mmu, OF ei_example_facts(1,2,3)
        ei_example_hyps(1,2) ei_example_facts(10,11), THEN conjunct2, THEN conjunct2]
    by (simp add: ei_example_facts)
  have program: "MMU_read ei_mmu (PC ei_cpu) = 0xFB \<and> MMU_read ei_mmu (PC ei_cpu + 1) = 0x00
      \<and> MMU_read ei_mmu (PC ei_cpu + 2) = 0xF3
      \<and> MMU_read ei_mmu 0xFFFF = 0x01 \<and> MMU_read ei_mmu 0xFF0F = 0x01"
    by (simp add: ei_example_hyps ei_example_facts)
  have serviced: "CPU_steps 2 (ei_cpu, ei_mmu) \<noteq> None
      \<and> PC (fst (the (CPU_steps 2 (ei_cpu, ei_mmu)))) = 0x0040
      \<and> MMU_read (snd (the (CPU_steps 2 (ei_cpu, ei_mmu)))) 0xFF0F = 0x00
      \<and> SP (fst (the (CPU_steps 2 (ei_cpu, ei_mmu)))) = 0xFFFC
      \<and> MMU_read (snd (the (CPU_steps 2 (ei_cpu, ei_mmu)))) 0xFFFC = 0x02
      \<and> MMU_read (snd (the (CPU_steps 2 (ei_cpu, ei_mmu)))) 0xFFFD = 0xC0"
    unfolding steps by (simp add: MMU_read_def MMU_write_def)
  from program serviced show ?thesis by (simp only: simp_thms)
qed

end
